theory Spec2Isabelle
  imports Main
begin

section \<open>JavaScript strings\<close>

text \<open>
  A JavaScript string is modelled as a \<^typ>\<open>string\<close>, one \<^typ>\<open>char\<close> per code unit, so the
  model covers the code units 0 to 255. The character classes below are the regular
  expression classes of the source restricted to that range: \<open>\s\<close> is tab, line feed,
  vertical tab, form feed, carriage return, space and no-break space; \<open>\d\<close>, \<open>[a-z]\<close> and
  \<open>[A-Z]\<close> are the ASCII ranges. \<open>toLowerCase\<close> and \<open>toUpperCase\<close> are modelled on the
  ASCII letters, the only ones the results of this program depend on.
\<close>

definition is_space :: "char \<Rightarrow> bool" where
  "is_space c = ((of_char c :: nat) \<in> {9, 10, 11, 12, 13, 32, 160})"

definition is_digit :: "char \<Rightarrow> bool" where
  "is_digit c = (48 \<le> (of_char c :: nat) \<and> (of_char c :: nat) \<le> 57)"

definition is_upper :: "char \<Rightarrow> bool" where
  "is_upper c = (65 \<le> (of_char c :: nat) \<and> (of_char c :: nat) \<le> 90)"

definition is_lower :: "char \<Rightarrow> bool" where
  "is_lower c = (97 \<le> (of_char c :: nat) \<and> (of_char c :: nat) \<le> 122)"

definition is_alnum :: "char \<Rightarrow> bool" where
  "is_alnum c = (is_lower c \<or> is_upper c \<or> is_digit c)"

definition lower_char :: "char \<Rightarrow> char" where
  "lower_char c = (if is_upper c then char_of ((of_char c :: nat) + 32) else c)"

definition upper_char :: "char \<Rightarrow> char" where
  "upper_char c = (if is_lower c then char_of ((of_char c :: nat) - 32) else c)"

definition toLowerCase :: "string \<Rightarrow> string" where
  "toLowerCase s = map lower_char s"

definition toUpperCase :: "string \<Rightarrow> string" where
  "toUpperCase s = map upper_char s"

text \<open>\<open>s.trim()\<close>\<close>

definition trim :: "string \<Rightarrow> string" where
  "trim s = rev (dropWhile is_space (rev (dropWhile is_space s)))"

text \<open>\<open>s.replace(/\s+/g, ' ')\<close>: every maximal run of white space becomes one space.\<close>

function collapse_spaces :: "string \<Rightarrow> string" where
  "collapse_spaces [] = []"
| "collapse_spaces (c # cs) =
     (if is_space c then CHR '' '' # collapse_spaces (dropWhile is_space cs)
      else c # collapse_spaces cs)"
  by pat_completeness auto
termination
  by (relation "measure length") (auto simp: length_dropWhile_le less_Suc_eq_le)

text \<open>\<open>s.split(/\s+/)\<close>: the pieces between maximal runs of white space; a run at either
  end of the string leaves an empty piece there, and the empty string gives one empty piece.\<close>

function split_spaces :: "string \<Rightarrow> string list" where
  "split_spaces s =
     (case dropWhile (\<lambda>c. \<not> is_space c) s of
        [] \<Rightarrow> [s]
      | r # rs \<Rightarrow> takeWhile (\<lambda>c. \<not> is_space c) s # split_spaces (dropWhile is_space rs))"
  by pat_completeness auto
termination
proof (relation "measure length", goal_cases)
  case 1
  show ?case by simp
next
  case (2 s r rs)
  have "length (dropWhile is_space rs) \<le> length rs"
    by (rule length_dropWhile_le)
  moreover have "length (r # rs) \<le> length s"
    unfolding 2 [symmetric] by (rule length_dropWhile_le)
  ultimately show ?case by simp
qed

text \<open>\<open>s.split(c)\<close> for a one-character separator.\<close>

fun split_on :: "char \<Rightarrow> string \<Rightarrow> string list" where
  "split_on sep [] = [[]]"
| "split_on sep (c # cs) =
     (if c = sep then [] # split_on sep cs
      else (case split_on sep cs of
              [] \<Rightarrow> [[c]]
            | w # ws \<Rightarrow> (c # w) # ws))"

text \<open>\<open>s.startsWith(t)\<close>, \<open>s.endsWith(t)\<close> and \<open>s.includes(t)\<close>.\<close>

definition startsWith :: "string \<Rightarrow> string \<Rightarrow> bool" where
  "startsWith s t = (take (length t) s = t)"

definition endsWith :: "string \<Rightarrow> string \<Rightarrow> bool" where
  "endsWith s t = (length t \<le> length s \<and> drop (length s - length t) s = t)"

fun includes_str :: "string \<Rightarrow> string \<Rightarrow> bool" where
  "includes_str [] t = (t = [])"
| "includes_str (c # cs) t = (startsWith (c # cs) t \<or> includes_str cs t)"

text \<open>The decimal numeral of a number, as template strings print it.\<close>

definition digit_char :: "nat \<Rightarrow> char" where
  "digit_char d = ''0123456789'' ! (d mod 10)"

function string_of_nat :: "nat \<Rightarrow> string" where
  "string_of_nat n =
     (if n < 10 then [digit_char n] else string_of_nat (n div 10) @ [digit_char (n mod 10)])"
  by pat_completeness auto
termination
  by (relation "measure id") auto

section \<open>The document\<close>

text \<open>
  A parsed document is a tree of element and text nodes. An element is handled through its
  path, the child indices from the document element down, together with the node found
  there; two handles denote the same element (\<open>===\<close>) when the paths agree. The two
  selector engines of the browser, \<open>querySelectorAll\<close> for CSS selectors and
  \<open>evaluate\<close> for path expressions, are fields of the document: each maps an expression to
  the matching elements in document order, or to \<open>None\<close> where the browser throws
  on a malformed expression.
\<close>

datatype node =
    Element string "(string \<times> string) list" "node list"
  | Text string

type_synonym path = "nat list"

type_synonym element = "path \<times> node"

record document =
  documentElement :: node
  title :: string
  querySelectorAll :: "string \<Rightarrow> path list option"
  evaluate :: "string \<Rightarrow> path list option"

fun localName :: "node \<Rightarrow> string" where
  "localName (Element t as cs) = t"
| "localName (Text s) = []"

fun attributes :: "node \<Rightarrow> (string \<times> string) list" where
  "attributes (Element t as cs) = as"
| "attributes (Text s) = []"

fun childNodes :: "node \<Rightarrow> node list" where
  "childNodes (Element t as cs) = cs"
| "childNodes (Text s) = []"

fun is_element :: "node \<Rightarrow> bool" where
  "is_element (Element t as cs) = True"
| "is_element (Text s) = False"

text \<open>\<open>el.tagName\<close>: for the HTML elements of an HTML document, the name in upper case.\<close>

definition tagName :: "element \<Rightarrow> string" where
  "tagName el = toUpperCase (localName (snd el))"

text \<open>\<open>el.getAttribute(a)\<close>, \<open>None\<close> for \<open>null\<close>.\<close>

definition getAttribute :: "element \<Rightarrow> string \<Rightarrow> string option" where
  "getAttribute el a = map_of (attributes (snd el)) a"

text \<open>A value is truthy when it is neither \<open>null\<close> nor the empty string.\<close>

fun truthy :: "string option \<Rightarrow> bool" where
  "truthy None = False"
| "truthy (Some v) = (v \<noteq> [])"

fun textContent_node :: "node \<Rightarrow> string" where
  "textContent_node (Text s) = s"
| "textContent_node (Element t as cs) = concat (map textContent_node cs)"

definition textContent :: "element \<Rightarrow> string" where
  "textContent el = textContent_node (snd el)"

fun node_at :: "node \<Rightarrow> path \<Rightarrow> node option" where
  "node_at n [] = Some n"
| "node_at (Text s) (i # p) = None"
| "node_at (Element t as cs) (i # p) = (if i < length cs then node_at (cs ! i) p else None)"

text \<open>The children of an element with their paths, and those that are elements.\<close>

definition child_handles :: "element \<Rightarrow> element list" where
  "child_handles el =
     map (\<lambda>i. (fst el @ [i], childNodes (snd el) ! i)) [0 ..< length (childNodes (snd el))]"

definition children :: "element \<Rightarrow> element list" where
  "children el = filter (\<lambda>c. is_element (snd c)) (child_handles el)"

text \<open>\<open>el.parentElement\<close>: the document element has none (its parent is the document).\<close>

definition parentElement :: "document \<Rightarrow> element \<Rightarrow> element option" where
  "parentElement doc el =
     (if fst el = [] then None
      else (case node_at (documentElement doc) (butlast (fst el)) of
              None \<Rightarrow> None
            | Some n \<Rightarrow> Some (butlast (fst el), n)))"

text \<open>The preceding element siblings, nearest first: the chain that
  \<open>previousElementSibling\<close> walks.\<close>

definition previousElementSiblings :: "document \<Rightarrow> element \<Rightarrow> element list" where
  "previousElementSiblings doc el =
     (case parentElement doc el of
        None \<Rightarrow> []
      | Some p \<Rightarrow> rev (filter (\<lambda>c. is_element (snd c)) (take (last (fst el)) (child_handles p))))"

text \<open>All elements below and including a node, in document order.\<close>

fun elements_of :: "path \<Rightarrow> node \<Rightarrow> element list"
  and elements_of_list :: "path \<Rightarrow> nat \<Rightarrow> node list \<Rightarrow> element list" where
  "elements_of p (Text s) = []"
| "elements_of p (Element t as cs) = (p, Element t as cs) # elements_of_list p 0 cs"
| "elements_of_list p i [] = []"
| "elements_of_list p i (c # cs) = elements_of (p @ [i]) c @ elements_of_list p (Suc i) cs"

definition all_elements :: "document \<Rightarrow> element list" where
  "all_elements doc = elements_of [] (documentElement doc)"

text \<open>\<open>doc.getElementsByTagName(tag)\<close> for a lower-case tag.\<close>

definition getElementsByTagName :: "document \<Rightarrow> string \<Rightarrow> element list" where
  "getElementsByTagName doc tag =
     filter (\<lambda>e. toLowerCase (tagName e) = tag) (all_elements doc)"

section \<open>Helpers of the analysis service\<close>

abbreviation apos :: string where
  "apos \<equiv> [CHR 0x27]"

abbreviation dquote :: string where
  "dquote \<equiv> [CHR 0x22]"

definition ATTRIBUTE_PRIORITY :: "string list" where
  "ATTRIBUTE_PRIORITY =
     [''id'', ''name'', ''data-testid'', ''data-test'', ''data-cy'', ''placeholder'',
      ''aria-label'', ''title'', ''alt'', ''class'']"

definition INTERACTIVE_TAGS :: "string list" where
  "INTERACTIVE_TAGS = [''input'', ''button'', ''a'', ''select'', ''textarea'']"

definition cleanText :: "string \<Rightarrow> string" where
  "cleanText text = (if text = [] then [] else trim (collapse_spaces text))"

text \<open>
  \<open>generateVarName\<close> draws a random number when the cleaned base is empty. The draws are the
  values \<open>rand 0\<close>, \<open>rand 1\<close>, ... of a supplied sequence, reduced to the range of
  \<open>Math.floor(Math.random() * 1000)\<close>; the function returns the name and the number of the
  next draw.
\<close>

definition strip_underscores :: "string \<Rightarrow> string" where
  "strip_underscores s =
     rev (dropWhile (\<lambda>c. c = CHR ''_'') (rev (dropWhile (\<lambda>c. c = CHR ''_'') s)))"

definition sanitize :: "string \<Rightarrow> string" where
  "sanitize base =
     strip_underscores
       (map (\<lambda>c. if is_lower c \<or> is_digit c then c else CHR ''_'') (toLowerCase base))"

definition generateVarName :: "(nat \<Rightarrow> nat) \<Rightarrow> nat \<Rightarrow> string \<Rightarrow> string \<Rightarrow> string \<times> nat" where
  "generateVarName rand k base tag =
     (let name = sanitize base in
      if name = [] then (''element_'' @ string_of_nat (rand k mod 1000) @ ''_'' @ tag, Suc k)
      else (name @ ''_'' @ tag, k))"

text \<open>\<open>evaluateXpath\<close> catches what \<open>doc.evaluate\<close> throws and counts no match then.\<close>

definition evaluateXpath :: "string \<Rightarrow> document \<Rightarrow> nat" where
  "evaluateXpath xpath doc = (case evaluate doc xpath of None \<Rightarrow> 0 | Some ns \<Rightarrow> length ns)"

subsection \<open>The relative locator\<close>

definition anchorXpath :: "element \<Rightarrow> string \<Rightarrow> string" where
  "anchorXpath sib text =
     ''//'' @ toLowerCase (tagName sib) @ ''[normalize-space()='' @ apos @ text @ apos @ '']''"

text \<open>The loop over the preceding siblings, nearest first.\<close>

fun precedingSiblingAnchor :: "document \<Rightarrow> string \<Rightarrow> element list \<Rightarrow> (string \<times> nat) option" where
  "precedingSiblingAnchor doc tag [] = None"
| "precedingSiblingAnchor doc tag (sibling # rest) =
     (let text = cleanText (textContent sibling);
          relativeXpath = anchorXpath sibling text @ ''/following-sibling::'' @ tag
      in if text \<noteq> [] \<and> length text > 2
            \<and> evaluateXpath (anchorXpath sibling text) doc = 1
            \<and> evaluateXpath relativeXpath doc = 1
         then Some (relativeXpath, 95)
         else precedingSiblingAnchor doc tag rest)"

text \<open>The loop over the other children of the parent.\<close>

fun parentSiblingAnchor :: "document \<Rightarrow> string \<Rightarrow> element list \<Rightarrow> (string \<times> nat) option" where
  "parentSiblingAnchor doc tag [] = None"
| "parentSiblingAnchor doc tag (sib # rest) =
     (let text = cleanText (textContent sib);
          relativeXpath = anchorXpath sib text @ ''/..//'' @ tag
      in if text \<noteq> [] \<and> length text > 2 \<and> length text < 50
            \<and> evaluateXpath (anchorXpath sib text) doc = 1
            \<and> evaluateXpath relativeXpath doc = 1
         then Some (relativeXpath, 92)
         else parentSiblingAnchor doc tag rest)"

definition generateRelativeXPath :: "element \<Rightarrow> document \<Rightarrow> (string \<times> nat) option" where
  "generateRelativeXPath el doc =
     (let tag = toLowerCase (tagName el) in
      case precedingSiblingAnchor doc tag (previousElementSiblings doc el) of
        Some r \<Rightarrow> Some r
      | None \<Rightarrow>
          (case parentElement doc el of
             None \<Rightarrow> None
           | Some parent \<Rightarrow>
               parentSiblingAnchor doc tag (filter (\<lambda>c. fst c \<noteq> fst el) (children parent))))"

subsection \<open>The absolute path\<close>

text \<open>
  \<open>element === document.body\<close> compares with the body of the page that runs the analysis,
  while the element belongs to the document that \<open>DOMParser\<close> built: the two are never the
  same node.
\<close>

definition is_document_body :: "element \<Rightarrow> bool" where
  "is_document_body el = False"

definition element_id :: "element \<Rightarrow> string" where
  "element_id el = (case getAttribute el ''id'' of None \<Rightarrow> [] | Some v \<Rightarrow> v)"

text \<open>The indexing loop: the number of same-tag element siblings before the element, or
  \<open>None\<close> when the loop ends without meeting it.\<close>

fun sameTagIndex :: "element \<Rightarrow> element list \<Rightarrow> nat \<Rightarrow> nat option" where
  "sameTagIndex el [] ix = None"
| "sameTagIndex el (sibling # rest) ix =
     (if fst sibling = fst el then Some ix
      else sameTagIndex el rest
             (if is_element (snd sibling) \<and> tagName sibling = tagName el then Suc ix else ix))"

function getAbsoluteXPath :: "document \<Rightarrow> element \<Rightarrow> string" where
  "getAbsoluteXPath doc el =
     (if element_id el \<noteq> [] then ''//*[@id='' @ dquote @ element_id el @ dquote @ '']''
      else if is_document_body el then ''/html/body''
      else
        (case parentElement doc el of
           None \<Rightarrow> ''/'' @ toLowerCase (tagName el)
         | Some parent \<Rightarrow>
             (if length (filter (\<lambda>n. is_element (snd n) \<and> tagName n = tagName el)
                          (child_handles parent)) = 1
              then getAbsoluteXPath doc parent @ ''/'' @ toLowerCase (tagName el)
              else
                (case sameTagIndex el (child_handles parent) 0 of
                   Some ix \<Rightarrow>
                     getAbsoluteXPath doc parent @ ''/'' @ toLowerCase (tagName el)
                       @ ''['' @ string_of_nat (ix + 1) @ '']''
                 | None \<Rightarrow> []))))"
  by pat_completeness auto
termination
  by (relation "measure (\<lambda>(doc, el). length (fst el))")
    (auto simp: parentElement_def split: if_splits option.splits)

subsection \<open>The locator of one element\<close>

datatype LocatorType =
  ById | ByCss | ByXPath | ByName | ByLinkText | ByPartialLinkText | ByClassName | ByTagName

record locator =
  loc_type :: LocatorType
  loc_value :: string
  loc_score :: nat

text \<open>The exception of \<open>querySelectorAll\<close> on a selector it cannot parse.\<close>

datatype error = SyntaxError string

text \<open>
  Each strategy of \<open>generateLocator\<close> either returns its locator, or lets the next one run
  (\<open>Inr None\<close>), or throws (\<open>Inl\<close>). \<open>first_viable\<close> runs them in order: the first locator
  or the first exception ends the function, and the last resort is returned when every
  strategy lets the next one run.
\<close>

fun first_viable :: "(error + locator option) list \<Rightarrow> locator \<Rightarrow> error + locator" where
  "first_viable [] fallback = Inr fallback"
| "first_viable (Inl e # rest) fallback = Inl e"
| "first_viable (Inr (Some l) # rest) fallback = Inr l"
| "first_viable (Inr None # rest) fallback = first_viable rest fallback"

text \<open>\<open>if (doc.querySelectorAll(selector).length === 1) return l\<close>, outside any \<open>try\<close>.\<close>

definition unique_selector :: "document \<Rightarrow> string \<Rightarrow> locator \<Rightarrow> error + locator option" where
  "unique_selector doc selector l =
     (case querySelectorAll doc selector of
        None \<Rightarrow> Inl (SyntaxError selector)
      | Some ns \<Rightarrow> Inr (if length ns = 1 then Some l else None))"

text \<open>1. The id, unless it has a digit or looks generated.\<close>

definition id_strategy :: "element \<Rightarrow> document \<Rightarrow> error + locator option" where
  "id_strategy el doc =
     (case getAttribute el ''id'' of
        None \<Rightarrow> Inr None
      | Some v \<Rightarrow>
          if v \<noteq> [] \<and> \<not> list_ex is_digit v
             \<and> \<not> (includes_str v ''ext'' \<or> includes_str v ''gen'')
          then unique_selector doc (''#'' @ v) \<lparr>loc_type = ById, loc_value = v, loc_score = 100\<rparr>
          else Inr None)"

text \<open>2. The name attribute.\<close>

definition name_strategy :: "element \<Rightarrow> document \<Rightarrow> error + locator option" where
  "name_strategy el doc =
     (case getAttribute el ''name'' of
        None \<Rightarrow> Inr None
      | Some v \<Rightarrow>
          if v \<noteq> []
          then unique_selector doc (''[name='' @ dquote @ v @ dquote @ '']'')
                 \<lparr>loc_type = ByName, loc_value = v, loc_score = 95\<rparr>
          else Inr None)"

text \<open>3. and 4. The text of a link, whole or its first fifteen characters.\<close>

definition xpathLink :: "string \<Rightarrow> string" where
  "xpathLink text = ''//a[normalize-space()='' @ apos @ text @ apos @ '']''"

definition xpathPartial :: "string \<Rightarrow> string" where
  "xpathPartial partialText = ''//a[contains(text(), '' @ apos @ partialText @ apos @ '')]''"

definition linkText_strategy :: "element \<Rightarrow> document \<Rightarrow> error + locator option" where
  "linkText_strategy el doc =
     (let tag = toLowerCase (tagName el); text = cleanText (textContent el) in
      if tag = ''a'' \<and> text \<noteq> [] \<and> length text < 60 \<and> evaluateXpath (xpathLink text) doc = 1
      then Inr (Some \<lparr>loc_type = ByLinkText, loc_value = text, loc_score = 90\<rparr>)
      else Inr None)"

definition partialLinkText_strategy :: "element \<Rightarrow> document \<Rightarrow> error + locator option" where
  "partialLinkText_strategy el doc =
     (let tag = toLowerCase (tagName el); text = cleanText (textContent el);
          partialText = take 15 text in
      if tag = ''a'' \<and> text \<noteq> [] \<and> length text > 5
         \<and> evaluateXpath (xpathPartial partialText) doc = 1
      then Inr (Some \<lparr>loc_type = ByPartialLinkText, loc_value = partialText, loc_score = 85\<rparr>)
      else Inr None)"

text \<open>5. The loop over \<open>ATTRIBUTE_PRIORITY\<close>, skipping id, class and name.\<close>

definition attr_selector :: "string \<Rightarrow> string \<Rightarrow> string \<Rightarrow> string" where
  "attr_selector tag attr val = tag @ ''['' @ attr @ ''='' @ dquote @ val @ dquote @ '']''"

fun css_strategy :: "element \<Rightarrow> document \<Rightarrow> string list \<Rightarrow> error + locator option" where
  "css_strategy el doc [] = Inr None"
| "css_strategy el doc (attr # rest) =
     (if attr \<in> set [''id'', ''class'', ''name''] then css_strategy el doc rest
      else
        (case getAttribute el attr of
           None \<Rightarrow> css_strategy el doc rest
         | Some val \<Rightarrow>
             if val = [] then css_strategy el doc rest
             else
               (case querySelectorAll doc (attr_selector (toLowerCase (tagName el)) attr val) of
                  None \<Rightarrow> Inl (SyntaxError (attr_selector (toLowerCase (tagName el)) attr val))
                | Some ns \<Rightarrow>
                    if length ns = 1
                    then Inr (Some \<lparr>loc_type = ByCss,
                                    loc_value = attr_selector (toLowerCase (tagName el)) attr val,
                                    loc_score = 80\<rparr>)
                    else css_strategy el doc rest)))"

text \<open>6. The classes; here the exception of a selector is caught and the class skipped.\<close>

fun class_loop :: "document \<Rightarrow> string list \<Rightarrow> locator option" where
  "class_loop doc [] = None"
| "class_loop doc (c # rest) =
     (case querySelectorAll doc (''.'' @ c) of
        None \<Rightarrow> class_loop doc rest
      | Some ns \<Rightarrow>
          if length ns = 1
          then Some \<lparr>loc_type = ByClassName, loc_value = c, loc_score = 75\<rparr>
          else class_loop doc rest)"

definition className_strategy :: "element \<Rightarrow> document \<Rightarrow> error + locator option" where
  "className_strategy el doc =
     (case getAttribute el ''class'' of
        None \<Rightarrow> Inr None
      | Some className \<Rightarrow>
          if className = [] then Inr None
          else Inr (class_loop doc
                 (filter (\<lambda>c. c \<noteq> [] \<and> c \<notin> set [''btn'', ''form-control'', ''input''])
                    (split_spaces className))))"

text \<open>7. The tag, when the document has one element of it.\<close>

definition tagName_strategy :: "element \<Rightarrow> document \<Rightarrow> error + locator option" where
  "tagName_strategy el doc =
     (let tag = toLowerCase (tagName el) in
      if length (getElementsByTagName doc tag) = 1
      then Inr (Some \<lparr>loc_type = ByTagName, loc_value = tag, loc_score = 70\<rparr>)
      else Inr None)"

text \<open>8.A The exact text of the element, indexed when several elements carry it.\<close>

definition xpathExact :: "string \<Rightarrow> string \<Rightarrow> string" where
  "xpathExact tag text = ''//'' @ tag @ ''[normalize-space()='' @ apos @ text @ apos @ '']''"

definition indexedXpath :: "string \<Rightarrow> nat \<Rightarrow> string" where
  "indexedXpath xpath i = ''('' @ xpath @ '')['' @ string_of_nat (i + 1) @ '']''"

text \<open>The loop over the snapshot: the first index that holds the element.\<close>

fun snapshotIndex :: "element \<Rightarrow> path list \<Rightarrow> nat \<Rightarrow> nat option" where
  "snapshotIndex el [] i = None"
| "snapshotIndex el (n # ns) i = (if n = fst el then Some i else snapshotIndex el ns (Suc i))"

definition textXpath_strategy :: "element \<Rightarrow> document \<Rightarrow> error + locator option" where
  "textXpath_strategy el doc =
     (let tag = toLowerCase (tagName el); text = cleanText (textContent el) in
      if text \<noteq> [] \<and> length text > 2 \<and> length text < 60 then
        (let count = evaluateXpath (xpathExact tag text) doc in
         if count = 1
         then Inr (Some \<lparr>loc_type = ByXPath, loc_value = xpathExact tag text, loc_score = 60\<rparr>)
         else if count > 1 then
           (case evaluate doc (xpathExact tag text) of
              None \<Rightarrow> Inl (SyntaxError (xpathExact tag text))
            | Some result \<Rightarrow>
                (case snapshotIndex el result 0 of
                   Some i \<Rightarrow>
                     Inr (Some \<lparr>loc_type = ByXPath,
                                loc_value = indexedXpath (xpathExact tag text) i,
                                loc_score = 55\<rparr>)
                 | None \<Rightarrow> Inr None))
         else Inr None)
      else Inr None)"

text \<open>8.B The relative locator; the score of the builder is dropped and 50 is given.\<close>

definition relative_strategy :: "element \<Rightarrow> document \<Rightarrow> error + locator option" where
  "relative_strategy el doc =
     (case generateRelativeXPath el doc of
        None \<Rightarrow> Inr None
      | Some relative \<Rightarrow>
          Inr (Some \<lparr>loc_type = ByXPath, loc_value = fst relative, loc_score = 50\<rparr>))"

text \<open>The strategies that come before the relative locator.\<close>

definition direct_strategies :: "element \<Rightarrow> document \<Rightarrow> (error + locator option) list" where
  "direct_strategies el doc =
     [id_strategy el doc, name_strategy el doc, linkText_strategy el doc,
      partialLinkText_strategy el doc, css_strategy el doc ATTRIBUTE_PRIORITY,
      className_strategy el doc, tagName_strategy el doc, textXpath_strategy el doc]"

definition generateLocator :: "element \<Rightarrow> document \<Rightarrow> error + locator" where
  "generateLocator el doc =
     first_viable (direct_strategies el doc @ [relative_strategy el doc])
       \<lparr>loc_type = ByXPath, loc_value = getAbsoluteXPath doc el, loc_score = 10\<rparr>"

section \<open>The analysis\<close>

text \<open>
  What the analysis takes from its surroundings: the HTML parser, the URL parser (the
  \<open>pathname\<close> of \<open>new URL(url)\<close>, or \<open>None\<close> where the constructor throws), the sequence of
  random numbers and the sequence of identifiers that \<open>crypto.randomUUID\<close> hands out.
\<close>

record env =
  parseFromString :: "string \<Rightarrow> document"
  URL_pathname :: "string \<Rightarrow> string option"
  random :: "nat \<Rightarrow> nat"
  randomUUID :: "nat \<Rightarrow> string"

record ElementDefinition =
  ed_id :: string
  ed_name :: string
  locatorType :: LocatorType
  locatorValue :: string
  description :: string

record TestStep =
  step_id :: string
  action :: string
  step_value :: "string option"
  step_description :: string

record TestCase =
  test_id :: string
  test_name :: string
  test_type :: string
  steps :: "TestStep list"

record PageDefinition =
  page_id :: string
  page_name :: string
  elements :: "ElementDefinition list"

record AutomationProject =
  pages :: "PageDefinition list"
  tests :: "TestCase list"

subsection \<open>The name of the page\<close>

text \<open>\<open>w.charAt(0).toUpperCase() + w.slice(1)\<close>\<close>

fun capitalize :: "string \<Rightarrow> string" where
  "capitalize [] = []"
| "capitalize (c # cs) = upper_char c # cs"

text \<open>The title up to the first \<open>-\<close> or \<open>|\<close>, its first three words of more than two
  characters.\<close>

definition titleName :: "string \<Rightarrow> string" where
  "titleName t =
     (let cleanTitle = filter (\<lambda>c. is_alnum c \<or> is_space c)
                         (trim (takeWhile (\<lambda>c. c \<noteq> CHR ''-'' \<and> c \<noteq> CHR ''|'') t));
          words = filter (\<lambda>w. length w > 2) (split_spaces cleanTitle)
      in concat (map capitalize (take 3 words)))"

text \<open>\<open>/^\d+$/.test(s)\<close>\<close>

definition all_digits :: "string \<Rightarrow> bool" where
  "all_digits s = (s \<noteq> [] \<and> list_all is_digit s)"

definition meaningfulSegments :: "string \<Rightarrow> string list" where
  "meaningfulSegments pathname =
     filter (\<lambda>s. \<not> all_digits s \<and> length s < 30)
       (filter (\<lambda>p. length p > 0) (split_on CHR ''/'' pathname))"

text \<open>The last meaningful segment: its first character in upper case, the rest without
  what is not a letter or a digit.\<close>

fun segmentName :: "string \<Rightarrow> string" where
  "segmentName [] = []"
| "segmentName (c # cs) = upper_char c # filter is_alnum cs"

definition derivePageName :: "string option \<Rightarrow> string \<Rightarrow> string" where
  "derivePageName pathname t =
     (case pathname of
        None \<Rightarrow>
          (if t \<noteq> [] then
             (let simpleTitle = filter is_alnum t in
              (if length simpleTitle > 15 then take 15 simpleTitle else simpleTitle) @ ''Page'')
           else ''HomePage'')
      | Some pn \<Rightarrow>
          (let derived1 = (if meaningfulSegments pn \<noteq> []
                           then segmentName (last (meaningfulSegments pn))
                           else if t \<noteq> [] then titleName t
                           else ''HomePage'');
               derived2 = (if derived1 = [] then ''HomePage'' else derived1);
               derived3 = (if length derived2 > 20 then take 20 derived2 else derived2)
           in if endsWith derived3 ''Page'' then derived3 else derived3 @ ''Page''))"

text \<open>\<open>derivedName.split(/(?=[A-Z])/).join('_').toLowerCase()\<close>: an underscore before
  every capital but one at the start.\<close>

fun snakeCase :: "string \<Rightarrow> string" where
  "snakeCase [] = []"
| "snakeCase (c # cs) =
     toLowerCase (c # concat (map (\<lambda>x. if is_upper x then [CHR ''_'', x] else [x]) cs))"

subsection \<open>The elements\<close>

text \<open>
  \<open>el.type\<close> of an input element reflects the \<open>type\<close> attribute: the attribute in lower
  case when it is one of the known states, and \<open>text\<close> otherwise.
\<close>

definition input_types :: "string list" where
  "input_types =
     [''hidden'', ''text'', ''search'', ''tel'', ''url'', ''email'', ''password'', ''date'',
      ''month'', ''week'', ''time'', ''datetime-local'', ''number'', ''range'', ''color'',
      ''checkbox'', ''radio'', ''file'', ''submit'', ''image'', ''reset'', ''button'']"

definition input_type :: "element \<Rightarrow> string" where
  "input_type el =
     (case getAttribute el ''type'' of
        None \<Rightarrow> ''text''
      | Some v \<Rightarrow> if toLowerCase v \<in> set input_types then toLowerCase v else ''text'')"

text \<open>\<open>a || b || ... || last\<close> on strings: the first truthy operand, or the last one.\<close>

fun first_truthy :: "string option list \<Rightarrow> string \<Rightarrow> string" where
  "first_truthy [] d = d"
| "first_truthy (None # rest) d = first_truthy rest d"
| "first_truthy (Some v # rest) d = (if v \<noteq> [] then v else first_truthy rest d)"

definition nameBase :: "element \<Rightarrow> string" where
  "nameBase el =
     first_truthy [getAttribute el ''id'', getAttribute el ''name'',
                   getAttribute el ''placeholder'', Some (textContent el),
                   getAttribute el ''aria-label''] (tagName el)"

text \<open>\<open>doc.querySelectorAll('input, button, a, select, textarea')\<close>: the elements of these
  tags, in document order.\<close>

definition interactive_nodes :: "document \<Rightarrow> element list" where
  "interactive_nodes doc =
     filter (\<lambda>e. toLowerCase (tagName e) \<in> set INTERACTIVE_TAGS) (all_elements doc)"

text \<open>
  The loop over the nodes. Its state is the list of elements so far, the number of random
  draws and the number of identifiers drawn; an exception of \<open>generateLocator\<close> ends it.
\<close>

fun scrape :: "env \<Rightarrow> document \<Rightarrow> element list \<Rightarrow> ElementDefinition list \<Rightarrow> nat \<Rightarrow> nat
    \<Rightarrow> error + (ElementDefinition list \<times> nat \<times> nat)" where
  "scrape e doc [] els k u = Inr (els, k, u)"
| "scrape e doc (el # rest) els k u =
     (if tagName el = ''INPUT'' \<and> input_type el = ''hidden'' then scrape e doc rest els k u
      else
        (case generateLocator el doc of
           Inl err \<Rightarrow> Inl err
         | Inr loc \<Rightarrow>
             (let named = generateVarName (random e) k (cleanText (nameBase el))
                            (toLowerCase (tagName el))
              in if \<not> list_ex (\<lambda>d. ed_name d = fst named) els
                 then scrape e doc rest
                        (els @ [\<lparr>ed_id = randomUUID e u, ed_name = fst named,
                                 locatorType = loc_type loc, locatorValue = loc_value loc,
                                 description = ''Auto-generated for <'' @ toLowerCase (tagName el)
                                                @ ''>''\<rparr>])
                        (snd named) (Suc u)
                 else scrape e doc rest els (snd named) u)))"

subsection \<open>The tests\<close>

definition name_includes :: "string list \<Rightarrow> ElementDefinition \<Rightarrow> bool" where
  "name_includes keys d = list_ex (\<lambda>key. includes_str (ed_name d) key) keys"

definition loginFlow :: "(nat \<Rightarrow> string) \<Rightarrow> nat \<Rightarrow> string \<Rightarrow> ElementDefinition list
    \<Rightarrow> TestCase list \<times> nat" where
  "loginFlow uuid u snakePage els =
     (let userInputs = filter (name_includes [''user'', ''email'', ''login'']) els;
          passInputs = filter (name_includes [''pass'']) els;
          submitBtns = filter (name_includes [''submit'', ''login'', ''sign_in'']) els
      in if length userInputs > 0 \<and> length passInputs > 0 \<and> length submitBtns > 0 then
           ([\<lparr>test_id = uuid u,
              test_name = ''test_'' @ snakePage @ ''_login_flow'',
              test_type = ''smoke'',
              steps =
                [\<lparr>step_id = uuid (u + 1), action = ''input'', step_value = Some ''standard_user'',
                  step_description = ''Enter username into '' @ ed_name (hd userInputs)\<rparr>,
                 \<lparr>step_id = uuid (u + 2), action = ''input'', step_value = Some ''secret_sauce'',
                  step_description = ''Enter password into '' @ ed_name (hd passInputs)\<rparr>,
                 \<lparr>step_id = uuid (u + 3), action = ''click'', step_value = Some [],
                  step_description = ''Click '' @ ed_name (hd submitBtns)\<rparr>,
                 \<lparr>step_id = uuid (u + 4), action = ''assert_visible'',
                  step_value = Some ''dashboard'',
                  step_description = ''Verify successful login location''\<rparr>]\<rparr>], u + 5)
         else ([], u))"

definition searchFlow :: "(nat \<Rightarrow> string) \<Rightarrow> nat \<Rightarrow> string \<Rightarrow> ElementDefinition list
    \<Rightarrow> TestCase list \<times> nat" where
  "searchFlow uuid u snakePage els =
     (let searchInputs = filter (name_includes [''search'', ''query'']) els
      in if length searchInputs > 0 then
           ([\<lparr>test_id = uuid u,
              test_name = ''test_'' @ snakePage @ ''_search'',
              test_type = ''regression'',
              steps =
                [\<lparr>step_id = uuid (u + 1), action = ''input'', step_value = Some ''Test Item'',
                  step_description = ''Type search query in '' @ ed_name (hd searchInputs)\<rparr>,
                 \<lparr>step_id = uuid (u + 2), action = ''click'', step_value = Some ''Enter'',
                  step_description = ''Submit search''\<rparr>,
                 \<lparr>step_id = uuid (u + 3), action = ''assert_visible'',
                  step_value = Some ''results'',
                  step_description = ''Verify results appear''\<rparr>]\<rparr>], u + 4)
         else ([], u))"

text \<open>The steps of the generic test, one per element; \<open>undefined\<close> is \<open>None\<close>.\<close>

fun genericSteps :: "(nat \<Rightarrow> string) \<Rightarrow> nat \<Rightarrow> ElementDefinition list \<Rightarrow> TestStep list" where
  "genericSteps uuid u [] = []"
| "genericSteps uuid u (el # rest) =
     \<lparr>step_id = uuid u,
      action = (if includes_str (ed_name el) ''input'' then ''input'' else ''click''),
      step_value = (if includes_str (ed_name el) ''input'' then Some ''test_data'' else None),
      step_description = ''Interact with '' @ ed_name el\<rparr>
     # genericSteps uuid (Suc u) rest"

definition genericFlow :: "(nat \<Rightarrow> string) \<Rightarrow> nat \<Rightarrow> string \<Rightarrow> ElementDefinition list
    \<Rightarrow> TestCase list \<Rightarrow> TestCase list \<times> nat" where
  "genericFlow uuid u snakePage els generatedTests =
     (if length generatedTests = 0 \<and> length els > 0 then
        ([\<lparr>test_id = uuid u,
           test_name = ''test_'' @ snakePage @ ''_basic_interactions'',
           test_type = ''smoke'',
           steps = genericSteps uuid (u + 1) (take 4 els)\<rparr>], u + 1 + length (take 4 els))
      else ([], u))"

text \<open>The three heuristics in the order of the source; each appends to the tests so far.\<close>

definition generateTests :: "(nat \<Rightarrow> string) \<Rightarrow> nat \<Rightarrow> string \<Rightarrow> ElementDefinition list
    \<Rightarrow> TestCase list \<times> nat" where
  "generateTests uuid u snakePage els =
     (let login = loginFlow uuid u snakePage els;
          search = searchFlow uuid (snd login) snakePage els;
          generic = genericFlow uuid (snd search) snakePage els (fst login @ fst search)
      in (fst login @ fst search @ fst generic, snd generic))"

subsection \<open>The entry point\<close>

definition analyzeDomAndGenerateSchema :: "env \<Rightarrow> string \<Rightarrow> string \<Rightarrow> error + AutomationProject" where
  "analyzeDomAndGenerateSchema e html url =
     (let doc = parseFromString e html;
          derivedName = derivePageName (URL_pathname e url) (title doc)
      in case scrape e doc (interactive_nodes doc) [] 0 0 of
           Inl err \<Rightarrow> Inl err
         | Inr (els, k, u) \<Rightarrow>
             (let generated = generateTests (randomUUID e) u (snakeCase derivedName) els
              in Inr \<lparr>pages = [\<lparr>page_id = randomUUID e (snd generated),
                                 page_name = derivedName, elements = els\<rparr>],
                      tests = fst generated\<rparr>))"

section \<open>Example documents\<close>

text \<open>
  Small documents on which the analysis is run below. For each, the two engines answer the
  queries that the analysis issues on it as a browser does, and find nothing for any other
  expression.
\<close>

text \<open>A login form with a hidden field and two buttons of the same id and text.\<close>

definition login_html :: string where
  \<open>login_html =
     ''<html><head><title>Shop - Login</title></head><body><form>''
     @ ''<input type="hidden" name="csrf"><input id="username">''
     @ ''<input name="password" type="password">''
     @ ''<button id="submit">Login</button><button id="submit">Login</button>''
     @ ''</form></body></html>''\<close>

definition login_tree :: node where
  "login_tree =
     Element ''html'' []
       [Element ''head'' [] [Element ''title'' [] [Text ''Shop - Login'']],
        Element ''body'' []
          [Element ''form'' []
             [Element ''input'' [(''type'', ''hidden''), (''name'', ''csrf'')] [],
              Element ''input'' [(''id'', ''username'')] [],
              Element ''input'' [(''name'', ''password''), (''type'', ''password'')] [],
              Element ''button'' [(''id'', ''submit'')] [Text ''Login''],
              Element ''button'' [(''id'', ''submit'')] [Text ''Login'']]]]"

definition login_doc :: document where
  \<open>login_doc =
     \<lparr>documentElement = login_tree,
      title = ''Shop - Login'',
      querySelectorAll =
        (\<lambda>s. if s = ''#username'' then Some [[1, 0, 1]]
             else if s = ''#submit'' then Some [[1, 0, 3], [1, 0, 4]]
             else if s = ''[name="password"]'' then Some [[1, 0, 2]]
             else if s = ''[name="csrf"]'' then Some [[1, 0, 0]]
             else Some []),
      evaluate =
        (\<lambda>s. if s = ''//button[normalize-space()='' @ apos @ ''Login'' @ apos @ '']''
               then Some [[1, 0, 3], [1, 0, 4]]
             else if s = ''(//button[normalize-space()='' @ apos @ ''Login'' @ apos @ ''])[1]''
               then Some [[1, 0, 3]]
             else if s = ''(//button[normalize-space()='' @ apos @ ''Login'' @ apos @ ''])[2]''
               then Some [[1, 0, 4]]
             else Some [])\<rparr>\<close>

definition csrf_input :: element where
  "csrf_input = ([1, 0, 0], Element ''input'' [(''type'', ''hidden''), (''name'', ''csrf'')] [])"

definition username_input :: element where
  "username_input = ([1, 0, 1], Element ''input'' [(''id'', ''username'')] [])"

definition password_input :: element where
  "password_input =
     ([1, 0, 2], Element ''input'' [(''name'', ''password''), (''type'', ''password'')] [])"

definition first_button :: element where
  "first_button = ([1, 0, 3], Element ''button'' [(''id'', ''submit'')] [Text ''Login''])"

definition second_button :: element where
  "second_button = ([1, 0, 4], Element ''button'' [(''id'', ''submit'')] [Text ''Login''])"

text \<open>Two labelled inputs without attributes.\<close>

definition labels_html :: string where
  "labels_html =
     ''<html><head><title>Sign up</title></head><body>''
     @ ''<div><label>Email</label><input></div><div><label>Password</label><input></div>''
     @ ''</body></html>''"

definition labels_tree :: node where
  "labels_tree =
     Element ''html'' []
       [Element ''head'' [] [Element ''title'' [] [Text ''Sign up'']],
        Element ''body'' []
          [Element ''div'' [] [Element ''label'' [] [Text ''Email''], Element ''input'' [] []],
           Element ''div'' [] [Element ''label'' [] [Text ''Password''], Element ''input'' [] []]]]"

definition labels_doc :: document where
  "labels_doc =
     \<lparr>documentElement = labels_tree,
      title = ''Sign up'',
      querySelectorAll = (\<lambda>s. Some []),
      evaluate =
        (\<lambda>s. if s = ''//label[normalize-space()='' @ apos @ ''Email'' @ apos @ '']''
               then Some [[1, 0, 0]]
             else if s = ''//label[normalize-space()='' @ apos @ ''Email'' @ apos
                           @ '']/following-sibling::input''
               then Some [[1, 0, 1]]
             else if s = ''//label[normalize-space()='' @ apos @ ''Password'' @ apos @ '']''
               then Some [[1, 1, 0]]
             else if s = ''//label[normalize-space()='' @ apos @ ''Password'' @ apos
                           @ '']/following-sibling::input''
               then Some [[1, 1, 1]]
             else Some [])\<rparr>"

definition email_input :: element where
  "email_input = ([1, 0, 1], Element ''input'' [] [])"

definition other_input :: element where
  "other_input = ([1, 1, 1], Element ''input'' [] [])"

text \<open>One button whose text has no letter or digit.\<close>

definition dots_html :: string where
  "dots_html = ''<html><head><title>Menu</title></head><body><button>...</button></body></html>''"

definition dots_tree :: node where
  "dots_tree =
     Element ''html'' []
       [Element ''head'' [] [Element ''title'' [] [Text ''Menu'']],
        Element ''body'' [] [Element ''button'' [] [Text ''...'']]]"

definition dots_button :: element where
  "dots_button = ([1, 0], Element ''button'' [] [Text ''...''])"

definition dots_doc :: document where
  "dots_doc =
     \<lparr>documentElement = dots_tree, title = ''Menu'',
      querySelectorAll = (\<lambda>s. Some []), evaluate = (\<lambda>s. Some [])\<rparr>"

text \<open>An input whose name holds a double quote: the selector built from it is malformed.\<close>

definition quote_html :: string where
  \<open>quote_html =
     ''<html><head><title>Quote</title></head><body><input name='' @ apos @ ''a"b'' @ apos
     @ ''></body></html>''\<close>

definition quote_tree :: node where
  \<open>quote_tree =
     Element ''html'' []
       [Element ''head'' [] [Element ''title'' [] [Text ''Quote'']],
        Element ''body'' [] [Element ''input'' [(''name'', ''a"b'')] []]]\<close>

definition quote_doc :: document where
  \<open>quote_doc =
     \<lparr>documentElement = quote_tree, title = ''Quote'',
      querySelectorAll = (\<lambda>s. if s = ''[name="a"b"]'' then None else Some []),
      evaluate = (\<lambda>s. Some [])\<rparr>\<close>

definition quote_input :: element where
  \<open>quote_input = ([1, 0], Element ''input'' [(''name'', ''a"b'')] [])\<close>

text \<open>A page without interactive elements.\<close>

definition about_html :: string where
  "about_html = ''<html><head><title>About</title></head><body><p>Hello</p></body></html>''"

definition about_tree :: node where
  "about_tree =
     Element ''html'' []
       [Element ''head'' [] [Element ''title'' [] [Text ''About'']],
        Element ''body'' [] [Element ''p'' [] [Text ''Hello'']]]"

definition about_doc :: document where
  "about_doc =
     \<lparr>documentElement = about_tree, title = ''About'',
      querySelectorAll = (\<lambda>s. Some []), evaluate = (\<lambda>s. Some [])\<rparr>"

text \<open>The surroundings of the examples; the second browser draws other random numbers and
  other identifiers.\<close>

definition browser :: env where
  "browser =
     \<lparr>parseFromString =
        (\<lambda>h. if h = login_html then login_doc
             else if h = labels_html then labels_doc
             else if h = dots_html then dots_doc
             else if h = quote_html then quote_doc
             else about_doc),
      URL_pathname =
        (\<lambda>u. if u = ''https://shop.example.com/products/42'' then Some ''/products/42''
             else if u = ''https://shop.example.com/login'' then Some ''/login''
             else if u = ''https://shop.example.com/42'' then Some ''/42''
             else None),
      random = (\<lambda>k. 7),
      randomUUID = (\<lambda>k. ''uuid-'' @ string_of_nat k)\<rparr>"

definition other_browser :: env where
  "other_browser = browser\<lparr>random := (\<lambda>k. 8), randomUUID := (\<lambda>k. ''id-'' @ string_of_nat k)\<rparr>"

section \<open>Vocabulary of the properties\<close>

text \<open>
  The number of nodes that the expression of a locator selects when it is evaluated again
  on the document: the query that \<open>generateLocator\<close> issues for the kind of the locator,
  and \<open>None\<close> where the engine throws.
\<close>

definition expression_count :: "document \<Rightarrow> locator \<Rightarrow> nat option" where
  "expression_count doc l =
     (case loc_type l of
        ById \<Rightarrow> map_option length (querySelectorAll doc (''#'' @ loc_value l))
      | ByName \<Rightarrow>
          map_option length
            (querySelectorAll doc (''[name='' @ dquote @ loc_value l @ dquote @ '']''))
      | ByLinkText \<Rightarrow> map_option length (evaluate doc (xpathLink (loc_value l)))
      | ByPartialLinkText \<Rightarrow> map_option length (evaluate doc (xpathPartial (loc_value l)))
      | ByCss \<Rightarrow> map_option length (querySelectorAll doc (loc_value l))
      | ByClassName \<Rightarrow> map_option length (querySelectorAll doc (''.'' @ loc_value l))
      | ByTagName \<Rightarrow> Some (length (getElementsByTagName doc (loc_value l)))
      | ByXPath \<Rightarrow> map_option length (evaluate doc (loc_value l)))"

text \<open>
  The meaning of a position predicate in the path language: \<open>(x)[i + 1]\<close> selects the node
  number \<open>i\<close> of what \<open>x\<close> selects. It is asked of the engine for the exact-text expression
  of one element.
\<close>

definition position_predicate :: "document \<Rightarrow> element \<Rightarrow> bool" where
  "position_predicate doc el =
     (let x = xpathExact (toLowerCase (tagName el)) (cleanText (textContent el)) in
      case evaluate doc x of
        None \<Rightarrow> True
      | Some ns \<Rightarrow>
          list_all (\<lambda>i. evaluate doc (indexedXpath x i) = Some [ns ! i]) [0 ..< length ns])"

text \<open>A result without its generated identifiers.\<close>

definition element_without_id :: "ElementDefinition \<Rightarrow> ElementDefinition" where
  "element_without_id d = d\<lparr>ed_id := []\<rparr>"

definition step_without_id :: "TestStep \<Rightarrow> TestStep" where
  "step_without_id s = s\<lparr>step_id := []\<rparr>"

definition test_without_ids :: "TestCase \<Rightarrow> TestCase" where
  "test_without_ids t = t\<lparr>test_id := [], steps := map step_without_id (steps t)\<rparr>"

definition page_without_ids :: "PageDefinition \<Rightarrow> PageDefinition" where
  "page_without_ids p =
     p\<lparr>page_id := [], elements := map element_without_id (elements p)\<rparr>"

definition without_ids :: "AutomationProject \<Rightarrow> AutomationProject" where
  "without_ids r =
     \<lparr>pages = map page_without_ids (pages r), tests = map test_without_ids (tests r)\<rparr>"

fun result_without_ids :: "error + AutomationProject \<Rightarrow> error + AutomationProject" where
  "result_without_ids (Inl err) = Inl err"
| "result_without_ids (Inr r) = Inr (without_ids r)"

text \<open>The element is hidden from the analysis: the test at the head of the loop.\<close>

definition hidden_input :: "element \<Rightarrow> bool" where
  "hidden_input el = (tagName el = ''INPUT'' \<and> input_type el = ''hidden'')"

text \<open>The name base of an element is clean when \<open>generateVarName\<close> needs no random number
  for it.\<close>

definition clean_base :: "element \<Rightarrow> bool" where
  "clean_base el = (sanitize (cleanText (nameBase el)) \<noteq> [])"

text \<open>A substring match that ignores case.\<close>

definition includes_ci :: "string \<Rightarrow> string \<Rightarrow> bool" where
  "includes_ci s key = includes_str (toLowerCase s) (toLowerCase key)"

definition name_includes_ci :: "string list \<Rightarrow> ElementDefinition \<Rightarrow> bool" where
  "name_includes_ci keys d = list_ex (\<lambda>key. includes_ci (ed_name d) key) keys"

text \<open>What a step does, without its identifier.\<close>

definition step_content :: "TestStep \<Rightarrow> string \<times> string option \<times> string" where
  "step_content s = (action s, step_value s, step_description s)"

text \<open>
  The scraped elements in scan order, each with the name generated for it: the loop of the
  analysis without the list it builds.
\<close>

fun scraped :: "env \<Rightarrow> document \<Rightarrow> element list \<Rightarrow> nat \<Rightarrow> (string \<times> element) list" where
  "scraped e doc [] k = []"
| "scraped e doc (el # rest) k =
     (if tagName el = ''INPUT'' \<and> input_type el = ''hidden'' then scraped e doc rest k
      else
        (let named = generateVarName (random e) k (cleanText (nameBase el))
                       (toLowerCase (tagName el))
         in (fst named, el) # scraped e doc rest (snd named)))"

text \<open>A list of names with only the first occurrence of each.\<close>

fun first_occurrences :: "string list \<Rightarrow> string list" where
  "first_occurrences [] = []"
| "first_occurrences (x # xs) = x # filter (\<lambda>y. y \<noteq> x) (first_occurrences xs)"

text \<open>The definition carries the locator and the description made for the element.\<close>

definition defined_from :: "document \<Rightarrow> element \<Rightarrow> ElementDefinition \<Rightarrow> bool" where
  "defined_from doc el d =
     (case generateLocator el doc of
        Inl err \<Rightarrow> False
      | Inr l \<Rightarrow>
          locatorType d = loc_type l \<and> locatorValue d = loc_value l
          \<and> description d = ''Auto-generated for <'' @ toLowerCase (tagName el) @ ''>'')"

section \<open>Evaluation\<close>

text \<open>The recursive equations of these functions are unfolded by hand only.\<close>

declare string_of_nat.simps [simp del]
declare split_spaces.simps [simp del]
declare getAbsoluteXPath.simps [simp del]

lemma char_of_bits:
  "char_of (n::nat) =
     Char (odd n) (odd (n div 2)) (odd (n div 4)) (odd (n div 8)) (odd (n div 16))
       (odd (n div 32)) (odd (n div 64)) (odd (n div 128))"
  by (simp add: char_of_def bit_iff_odd)

lemmas char_eval = char_of_bits is_space_def is_digit_def is_upper_def is_lower_def is_alnum_def
  lower_char_def upper_char_def toLowerCase_def toUpperCase_def

lemma digits_eval:
  "string_of_nat 0 = ''0''" "string_of_nat (Suc 0) = ''1''" "string_of_nat (Suc (Suc 0)) = ''2''"
  "string_of_nat 1 = ''1''" "string_of_nat 2 = ''2''" "string_of_nat 3 = ''3''"
  "string_of_nat 4 = ''4''" "string_of_nat 5 = ''5''" "string_of_nat 6 = ''6''"
  "string_of_nat 7 = ''7''" "string_of_nat 8 = ''8''" "string_of_nat 9 = ''9''"
  by (subst string_of_nat.simps, simp add: digit_char_def)+

lemmas locator_eval = generateLocator_def direct_strategies_def id_strategy_def name_strategy_def
  linkText_strategy_def partialLinkText_strategy_def className_strategy_def tagName_strategy_def
  textXpath_strategy_def relative_strategy_def unique_selector_def getAttribute_def
  ATTRIBUTE_PRIORITY_def attr_selector_def evaluateXpath_def xpathExact_def xpathLink_def
  xpathPartial_def indexedXpath_def tagName_def textContent_def cleanText_def trim_def
  getElementsByTagName_def all_elements_def startsWith_def Let_def

lemmas name_eval = generateVarName_def sanitize_def strip_underscores_def nameBase_def
  cleanText_def trim_def getAttribute_def textContent_def tagName_def Let_def

lemmas hidden_eval = input_type_def input_types_def getAttribute_def tagName_def

lemmas tests_eval = generateTests_def loginFlow_def searchFlow_def genericFlow_def
  name_includes_def startsWith_def Let_def

subsection \<open>The login form\<close>

lemma login_nodes:
  "interactive_nodes login_doc
     = [csrf_input, username_input, password_input, first_button, second_button]"
  by (simp add: interactive_nodes_def all_elements_def login_doc_def login_tree_def
      INTERACTIVE_TAGS_def tagName_def char_eval csrf_input_def username_input_def
      password_input_def first_button_def second_button_def)

lemma login_hidden:
  "(tagName csrf_input = ''INPUT'' \<and> input_type csrf_input = ''hidden'')"
  "\<not> (tagName username_input = ''INPUT'' \<and> input_type username_input = ''hidden'')"
  "\<not> (tagName password_input = ''INPUT'' \<and> input_type password_input = ''hidden'')"
  "\<not> (tagName first_button = ''INPUT'' \<and> input_type first_button = ''hidden'')"
  "\<not> (tagName second_button = ''INPUT'' \<and> input_type second_button = ''hidden'')"
  by (simp_all add: hidden_eval char_eval csrf_input_def username_input_def password_input_def
      first_button_def second_button_def)

lemma login_tags:
  "toLowerCase (tagName username_input) = ''input''"
  "toLowerCase (tagName password_input) = ''input''"
  "toLowerCase (tagName first_button) = ''button''"
  "toLowerCase (tagName second_button) = ''button''"
  by (simp_all add: tagName_def char_eval username_input_def password_input_def
      first_button_def second_button_def)

lemma login_names:
  "generateVarName rand k (cleanText (nameBase username_input)) ''input''
     = (''username_input'', k)"
  "generateVarName rand k (cleanText (nameBase password_input)) ''input''
     = (''password_input'', k)"
  "generateVarName rand k (cleanText (nameBase first_button)) ''button''
     = (''submit_button'', k)"
  "generateVarName rand k (cleanText (nameBase second_button)) ''button''
     = (''submit_button'', k)"
  by (simp_all add: name_eval char_eval username_input_def password_input_def
      first_button_def second_button_def)

lemma login_locator_username:
  "generateLocator username_input login_doc
     = Inr \<lparr>loc_type = ById, loc_value = ''username'', loc_score = 100\<rparr>"
  by (simp add: locator_eval char_eval username_input_def login_doc_def login_tree_def)

lemma login_locator_password:
  "generateLocator password_input login_doc
     = Inr \<lparr>loc_type = ByName, loc_value = ''password'', loc_score = 95\<rparr>"
  by (simp add: locator_eval char_eval password_input_def login_doc_def login_tree_def)

lemma login_locator_first:
  "generateLocator first_button login_doc
     = Inr \<lparr>loc_type = ByXPath,
             loc_value = ''(//button[normalize-space()='' @ apos @ ''Login'' @ apos @ ''])[1]'',
             loc_score = 55\<rparr>"
  by (simp add: locator_eval char_eval digits_eval first_button_def login_doc_def
      login_tree_def)

lemma login_locator_second:
  "generateLocator second_button login_doc
     = Inr \<lparr>loc_type = ByXPath,
             loc_value = ''(//button[normalize-space()='' @ apos @ ''Login'' @ apos @ ''])[2]'',
             loc_score = 55\<rparr>"
  by (simp add: locator_eval char_eval digits_eval second_button_def login_doc_def
      login_tree_def)

lemma login_scrape:
  "scrape e login_doc (interactive_nodes login_doc) [] 0 0 =
     Inr ([\<lparr>ed_id = randomUUID e 0, ed_name = ''username_input'', locatorType = ById,
             locatorValue = ''username'', description = ''Auto-generated for <input>''\<rparr>,
           \<lparr>ed_id = randomUUID e 1, ed_name = ''password_input'', locatorType = ByName,
             locatorValue = ''password'', description = ''Auto-generated for <input>''\<rparr>,
           \<lparr>ed_id = randomUUID e 2, ed_name = ''submit_button'', locatorType = ByXPath,
             locatorValue = ''(//button[normalize-space()='' @ apos @ ''Login'' @ apos @ ''])[1]'',
             description = ''Auto-generated for <button>''\<rparr>], 0, 3)"
  by (simp add: login_nodes login_hidden login_names login_tags login_locator_username
      login_locator_password login_locator_first login_locator_second Let_def
      numeral_2_eq_2 numeral_3_eq_3)

lemma meaningful_products: "meaningfulSegments ''/products/42'' = [''products'']"
  by (simp add: meaningfulSegments_def all_digits_def is_digit_def)

lemma derive_products: "derivePageName (Some ''/products/42'') t = ''ProductsPage''"
  by (simp add: derivePageName_def meaningful_products endsWith_def Let_def char_eval)

lemma snake_products: "snakeCase ''ProductsPage'' = ''products_page''"
  by (simp add: char_eval)

lemma login_analysis:
  "analyzeDomAndGenerateSchema browser login_html ''https://shop.example.com/products/42'' =
     Inr \<lparr>pages =
            [\<lparr>page_id = ''uuid-8'', page_name = ''ProductsPage'',
              elements =
                [\<lparr>ed_id = ''uuid-0'', ed_name = ''username_input'', locatorType = ById,
                   locatorValue = ''username'', description = ''Auto-generated for <input>''\<rparr>,
                 \<lparr>ed_id = ''uuid-1'', ed_name = ''password_input'', locatorType = ByName,
                   locatorValue = ''password'', description = ''Auto-generated for <input>''\<rparr>,
                 \<lparr>ed_id = ''uuid-2'', ed_name = ''submit_button'', locatorType = ByXPath,
                   locatorValue =
                     ''(//button[normalize-space()='' @ apos @ ''Login'' @ apos @ ''])[1]'',
                   description = ''Auto-generated for <button>''\<rparr>]\<rparr>],
          tests =
            [\<lparr>test_id = ''uuid-3'', test_name = ''test_products_page_login_flow'',
              test_type = ''smoke'',
              steps =
                [\<lparr>step_id = ''uuid-4'', action = ''input'', step_value = Some ''standard_user'',
                   step_description = ''Enter username into username_input''\<rparr>,
                 \<lparr>step_id = ''uuid-5'', action = ''input'', step_value = Some ''secret_sauce'',
                   step_description = ''Enter password into password_input''\<rparr>,
                 \<lparr>step_id = ''uuid-6'', action = ''click'', step_value = Some [],
                   step_description = ''Click submit_button''\<rparr>,
                 \<lparr>step_id = ''uuid-7'', action = ''assert_visible'',
                   step_value = Some ''dashboard'',
                   step_description = ''Verify successful login location''\<rparr>]\<rparr>]\<rparr>"
proof -
  have p: "parseFromString browser login_html = login_doc"
    by (simp add: browser_def)
  have u: "URL_pathname browser ''https://shop.example.com/products/42'' = Some ''/products/42''"
    by (simp add: browser_def)
  have ids: "randomUUID browser = (\<lambda>k. ''uuid-'' @ string_of_nat k)"
    by (simp add: browser_def)
  show ?thesis
    by (simp add: analyzeDomAndGenerateSchema_def p u derive_products snake_products login_scrape
        tests_eval ids digits_eval del: snakeCase.simps)
qed

section \<open>The resolver\<close>

text \<open>
  C5. An element whose id is not empty, has no digit, contains neither \<open>ext\<close> nor \<open>gen\<close>,
  and whose selector \<open>#id\<close> matches exactly one node, gets the locator of kind id with
  that id as value and score 100.
\<close>

theorem id_locator_returned:
  assumes "getAttribute el ''id'' = Some v" and "v \<noteq> []" and "\<not> list_ex is_digit v"
    and "\<not> includes_str v ''ext''" and "\<not> includes_str v ''gen''"
    and "querySelectorAll doc (''#'' @ v) = Some [n]"
  shows "generateLocator el doc = Inr \<lparr>loc_type = ById, loc_value = v, loc_score = 100\<rparr>"
  using assms
  by (simp add: generateLocator_def direct_strategies_def id_strategy_def unique_selector_def)

theorem id_locator_returned_witness:
  "generateLocator username_input login_doc
     = Inr \<lparr>loc_type = ById, loc_value = ''username'', loc_score = 100\<rparr>"
proof -
  have a: "getAttribute username_input ''id'' = Some ''username''"
    by (simp add: getAttribute_def username_input_def)
  have d: "\<not> list_ex is_digit ''username''"
    by (simp add: is_digit_def)
  have x: "\<not> includes_str ''username'' ''ext''"
    by (simp add: startsWith_def)
  have g: "\<not> includes_str ''username'' ''gen''"
    by (simp add: startsWith_def)
  have q: "querySelectorAll login_doc (''#'' @ ''username'') = Some [[1, 0, 1]]"
    by (simp add: login_doc_def)
  show ?thesis
    using id_locator_returned [OF a _ d x g q] by simp
qed

section \<open>The name of the page\<close>

lemma analyze_page_name:
  "analyzeDomAndGenerateSchema e html url = Inr r \<Longrightarrow>
   map page_name (pages r) = [derivePageName (URL_pathname e url) (title (parseFromString e html))]"
  by (auto simp: analyzeDomAndGenerateSchema_def Let_def split: sum.splits prod.splits)

lemma title_shop_login: "titleName ''Shop - Login'' = ''Shop''"
  by (simp add: titleName_def trim_def char_eval split_spaces.simps)

lemma segment_name_ignores_title:
  "meaningfulSegments pn \<noteq> [] \<Longrightarrow> derivePageName (Some pn) t = derivePageName (Some pn) s"
  by (simp add: derivePageName_def)

text \<open>
  C4, as the code has it. For the address \<open>https://shop.example.com/products/42\<close> the
  numeric segment \<open>42\<close> is filtered out and the name is taken from the segment that
  remains, \<open>products\<close>: the page is \<open>ProductsPage\<close> whatever the title. For every
  address that parses and keeps a segment after the filter, the name of the page is the
  same for every title: the title does not name the page.
\<close>

theorem page_name_from_remaining_segment:
  "(URL_pathname e ''https://shop.example.com/products/42'' = Some ''/products/42'' \<longrightarrow>
      analyzeDomAndGenerateSchema e html ''https://shop.example.com/products/42'' = Inr r \<longrightarrow>
      meaningfulSegments ''/products/42'' = [''products'']
      \<and> map page_name (pages r) = [''ProductsPage''])
   \<and> (URL_pathname f url = Some pn \<longrightarrow> meaningfulSegments pn \<noteq> [] \<longrightarrow>
      analyzeDomAndGenerateSchema f h url = Inr q \<longrightarrow>
      map page_name (pages q) = [derivePageName (Some pn) t])"
proof (intro conjI impI)
  assume "URL_pathname e ''https://shop.example.com/products/42'' = Some ''/products/42''"
    and "analyzeDomAndGenerateSchema e html ''https://shop.example.com/products/42'' = Inr r"
  then show "meaningfulSegments ''/products/42'' = [''products'']"
    and "map page_name (pages r) = [''ProductsPage'']"
    using analyze_page_name [of e html "''https://shop.example.com/products/42''" r]
    by (simp_all add: meaningful_products derive_products)
next
  assume u: "URL_pathname f url = Some pn" and m: "meaningfulSegments pn \<noteq> []"
    and a: "analyzeDomAndGenerateSchema f h url = Inr q"
  from analyze_page_name [OF a] u
  have "map page_name (pages q) = [derivePageName (Some pn) (title (parseFromString f h))]"
    by simp
  with segment_name_ignores_title [OF m] show "map page_name (pages q) = [derivePageName (Some pn) t]"
    by metis
qed

theorem page_name_from_remaining_segment_witness:
  "meaningfulSegments ''/products/42'' = [''products'']
   \<and> (\<exists>r. analyzeDomAndGenerateSchema browser login_html
              ''https://shop.example.com/products/42'' = Inr r
            \<and> map page_name (pages r) = [''ProductsPage'']
            \<and> map page_name (pages r) = [derivePageName (Some ''/products/42'') ''Menu''])"
proof -
  have u: "URL_pathname browser ''https://shop.example.com/products/42'' = Some ''/products/42''"
    by (simp add: browser_def)
  have m: "meaningfulSegments ''/products/42'' \<noteq> []"
    by (simp add: meaningful_products)
  obtain r where r: "analyzeDomAndGenerateSchema browser login_html
                       ''https://shop.example.com/products/42'' = Inr r"
    using login_analysis by (rule that)
  note both = page_name_from_remaining_segment
         [where e = browser and html = login_html and r = r and f = browser
            and url = "''https://shop.example.com/products/42''" and pn = "''/products/42''"
            and h = login_html and q = r and t = "''Menu''"]
  from both [THEN conjunct1, rule_format, OF u r]
  have a1: "meaningfulSegments ''/products/42'' = [''products'']"
    and a2: "map page_name (pages r) = [''ProductsPage'']"
    by (rule conjunct1, rule conjunct2)
  have b: "map page_name (pages r) = [derivePageName (Some ''/products/42'') ''Menu'']"
    by (rule both [THEN conjunct2, rule_format, OF u m r])
  show ?thesis
  proof (intro conjI exI)
    show "meaningfulSegments ''/products/42'' = [''products'']"
      by (rule a1)
    show "analyzeDomAndGenerateSchema browser login_html
            ''https://shop.example.com/products/42'' = Inr r"
      by (rule r)
    show "map page_name (pages r) = [''ProductsPage'']"
      by (rule a2)
    show "map page_name (pages r) = [derivePageName (Some ''/products/42'') ''Menu'']"
      by (rule b)
  qed
qed

text \<open>
  The claim as written fails: on the login form, whose title gives the name \<open>Shop\<close>, the
  page at \<open>/products/42\<close> is not named from the title.
\<close>

theorem page_name_not_from_title:
  "titleName (title login_doc) = ''Shop''
   \<and> derivePageName
        (URL_pathname browser ''https://shop.example.com/products/42'') (title login_doc)
       = ''ProductsPage''"
  by (simp add: browser_def derive_products title_shop_login login_doc_def)

section \<open>Uniqueness of the returned locator\<close>

lemma first_viable_cases:
  "first_viable ts d = Inr l \<Longrightarrow> l = d \<or> Inr (Some l) \<in> set ts"
  by (induction ts d rule: first_viable.induct) auto

lemma first_viable_skip:
  "list_all (\<lambda>t. t = Inr None) ts \<Longrightarrow> first_viable (ts @ rest) d = first_viable rest d"
  by (induction ts) auto

lemma unique_selector_Some:
  "unique_selector doc sel l0 = Inr (Some l) \<Longrightarrow>
   l = l0 \<and> map_option length (querySelectorAll doc sel) = Some 1"
  by (auto simp: unique_selector_def split: option.splits if_splits)

lemma id_strategy_unique:
  "id_strategy el doc = Inr (Some l) \<Longrightarrow> expression_count doc l = Some 1"
  by (auto simp: id_strategy_def expression_count_def split: option.splits if_splits
      dest!: unique_selector_Some)

lemma name_strategy_unique:
  "name_strategy el doc = Inr (Some l) \<Longrightarrow> expression_count doc l = Some 1"
  by (auto simp: name_strategy_def expression_count_def split: option.splits if_splits
      dest!: unique_selector_Some)

lemma evaluateXpath_one:
  "evaluateXpath x doc = Suc 0 \<Longrightarrow> map_option length (evaluate doc x) = Some 1"
  by (cases "evaluate doc x") (simp_all add: evaluateXpath_def)

lemma linkText_strategy_unique:
  "linkText_strategy el doc = Inr (Some l) \<Longrightarrow> expression_count doc l = Some 1"
  by (auto simp: linkText_strategy_def expression_count_def Let_def evaluateXpath_one
      split: if_splits)

lemma partialLinkText_strategy_unique:
  "partialLinkText_strategy el doc = Inr (Some l) \<Longrightarrow> expression_count doc l = Some 1"
  by (auto simp: partialLinkText_strategy_def expression_count_def Let_def evaluateXpath_one
      split: if_splits)

lemma css_strategy_unique:
  "css_strategy el doc attrs = Inr (Some l) \<Longrightarrow> expression_count doc l = Some 1"
  by (induction attrs) (auto simp: expression_count_def split: option.splits if_splits)

lemma class_loop_unique:
  "class_loop doc cs = Some l \<Longrightarrow> expression_count doc l = Some 1"
  by (induction cs) (auto simp: expression_count_def split: option.splits if_splits)

lemma className_strategy_unique:
  "className_strategy el doc = Inr (Some l) \<Longrightarrow> expression_count doc l = Some 1"
  by (auto simp: className_strategy_def split: option.splits if_splits dest: class_loop_unique)

lemma tagName_strategy_unique:
  "tagName_strategy el doc = Inr (Some l) \<Longrightarrow> expression_count doc l = Some 1"
  by (auto simp: tagName_strategy_def expression_count_def Let_def split: if_splits)

lemma snapshotIndex_bound:
  "snapshotIndex el ns j = Some i \<Longrightarrow> j \<le> i \<and> i < j + length ns"
  by (induction ns arbitrary: j) (fastforce split: if_splits)+

lemma textXpath_strategy_unique:
  assumes "textXpath_strategy el doc = Inr (Some l)" and "position_predicate doc el"
  shows "expression_count doc l = Some 1"
proof -
  define x where "x = xpathExact (toLowerCase (tagName el)) (cleanText (textContent el))"
  show ?thesis
  proof (cases "evaluateXpath x doc = 1")
    case True
    with assms(1) have "l = \<lparr>loc_type = ByXPath, loc_value = x, loc_score = 60\<rparr>"
      by (auto simp: textXpath_strategy_def Let_def x_def split: if_splits)
    with True show ?thesis
      by (simp add: expression_count_def evaluateXpath_one)
  next
    case False
    with assms(1) obtain ns i where ns: "evaluate doc x = Some ns"
      and i: "snapshotIndex el ns 0 = Some i"
      and l: "l = \<lparr>loc_type = ByXPath, loc_value = indexedXpath x i, loc_score = 55\<rparr>"
      by (auto simp: textXpath_strategy_def Let_def x_def split: if_splits option.splits)
    from i have "i < length ns"
      using snapshotIndex_bound by fastforce
    with assms(2) ns have "evaluate doc (indexedXpath x i) = Some [ns ! i]"
      by (simp add: position_predicate_def Let_def x_def list_all_iff)
    with l show ?thesis
      by (simp add: expression_count_def)
  qed
qed

lemma precedingSiblingAnchor_Some:
  "precedingSiblingAnchor doc tag sibs = Some r \<Longrightarrow>
   snd r = 95 \<and> evaluateXpath (fst r) doc = Suc 0"
  by (induction sibs) (auto simp: Let_def split: if_splits)

lemma parentSiblingAnchor_Some:
  "parentSiblingAnchor doc tag sibs = Some r \<Longrightarrow>
   snd r = 92 \<and> evaluateXpath (fst r) doc = Suc 0"
  by (induction sibs) (auto simp: Let_def split: if_splits)

lemma generateRelativeXPath_unique:
  "generateRelativeXPath el doc = Some r \<Longrightarrow> evaluateXpath (fst r) doc = Suc 0"
  by (auto simp: generateRelativeXPath_def Let_def split: option.splits
      dest: precedingSiblingAnchor_Some parentSiblingAnchor_Some)

lemma relative_strategy_unique:
  "relative_strategy el doc = Inr (Some l) \<Longrightarrow> expression_count doc l = Some 1"
  by (auto simp: relative_strategy_def expression_count_def evaluateXpath_one
      split: option.splits dest: generateRelativeXPath_unique)


text \<open>
  C1. A locator that \<open>generateLocator\<close> returns with a score other than 10, the score of
  the absolute path, selects exactly one node when its expression is evaluated again on
  the same document. Every such locator but the indexed one is returned after this very
  query counted one node; for the indexed one, of score 55, the engine is taken to give a
  position predicate its meaning in the path language.
\<close>

theorem returned_locator_unique:
  assumes "generateLocator el doc = Inr l" and "loc_score l \<noteq> 10"
    and "position_predicate doc el"
  shows "expression_count doc l = Some 1"
proof -
  from assms(1) have
    "l = \<lparr>loc_type = ByXPath, loc_value = getAbsoluteXPath doc el, loc_score = 10\<rparr>
     \<or> Inr (Some l) \<in> set (direct_strategies el doc @ [relative_strategy el doc])"
    unfolding generateLocator_def by (rule first_viable_cases)
  with assms(2) have "Inr (Some l) \<in> set (direct_strategies el doc @ [relative_strategy el doc])"
    by auto
  then consider "id_strategy el doc = Inr (Some l)" | "name_strategy el doc = Inr (Some l)"
    | "linkText_strategy el doc = Inr (Some l)" | "partialLinkText_strategy el doc = Inr (Some l)"
    | "css_strategy el doc ATTRIBUTE_PRIORITY = Inr (Some l)"
    | "className_strategy el doc = Inr (Some l)" | "tagName_strategy el doc = Inr (Some l)"
    | "textXpath_strategy el doc = Inr (Some l)" | "relative_strategy el doc = Inr (Some l)"
    by (auto simp: direct_strategies_def)
  then show ?thesis
    by cases
      (simp_all add: id_strategy_unique name_strategy_unique linkText_strategy_unique
        partialLinkText_strategy_unique css_strategy_unique className_strategy_unique
        tagName_strategy_unique textXpath_strategy_unique [OF _ assms(3)]
        relative_strategy_unique)
qed

lemma login_position: "position_predicate login_doc second_button"
proof -
  have x: "xpathExact (toLowerCase (tagName second_button)) (cleanText (textContent second_button))
             = ''//button[normalize-space()='' @ apos @ ''Login'' @ apos @ '']''"
    by (simp add: xpathExact_def tagName_def textContent_def cleanText_def trim_def char_eval
        second_button_def)
  have e: "evaluate login_doc (''//button[normalize-space()='' @ apos @ ''Login'' @ apos @ '']'')
             = Some [[1, 0, 3], [1, 0, 4]]"
    by (simp add: login_doc_def)
  have i0: "evaluate login_doc
              (indexedXpath (''//button[normalize-space()='' @ apos @ ''Login'' @ apos @ '']'') 0)
              = Some [[1, 0, 3]]"
    by (simp add: login_doc_def indexedXpath_def digits_eval)
  have i1: "evaluate login_doc
              (indexedXpath (''//button[normalize-space()='' @ apos @ ''Login'' @ apos @ '']'')
                 (Suc 0))
              = Some [[1, 0, 4]]"
    by (simp add: login_doc_def indexedXpath_def digits_eval)
  show ?thesis
    using i0 i1 unfolding position_predicate_def Let_def x e
    by (simp add: upt_rec [of 0] upt_rec [of "Suc 0"])
qed


theorem returned_locator_unique_witness:
  "position_predicate login_doc second_button
   \<and> generateLocator second_button login_doc
       = Inr \<lparr>loc_type = ByXPath,
               loc_value = ''(//button[normalize-space()='' @ apos @ ''Login'' @ apos @ ''])[2]'',
               loc_score = 55\<rparr>
   \<and> expression_count login_doc
        \<lparr>loc_type = ByXPath,
         loc_value = ''(//button[normalize-space()='' @ apos @ ''Login'' @ apos @ ''])[2]'',
         loc_score = 55\<rparr> = Some 1"
  using returned_locator_unique [OF login_locator_second _ login_position]
    login_position login_locator_second
  by simp

section \<open>The score of the relative locator\<close>

lemma labels_siblings:
  "previousElementSiblings labels_doc email_input
     = [([1, 0, 0], Element ''label'' [] [Text ''Email''])]"
  by (simp add: previousElementSiblings_def parentElement_def child_handles_def
      email_input_def labels_doc_def labels_tree_def)

lemma labels_tag: "toLowerCase (tagName email_input) = ''input''"
  by (simp add: tagName_def char_eval email_input_def)

lemma labels_anchor:
  "precedingSiblingAnchor labels_doc ''input'' (previousElementSiblings labels_doc email_input)
     = Some (''//label[normalize-space()='' @ apos @ ''Email'' @ apos
               @ '']/following-sibling::input'', 95)"
  unfolding labels_siblings
  by (simp add: anchorXpath_def evaluateXpath_def tagName_def textContent_def
      cleanText_def trim_def char_eval labels_doc_def Let_def)

lemma labels_direct:
  "list_all (\<lambda>t. t = Inr None) (direct_strategies email_input labels_doc)"
  by (simp add: locator_eval char_eval email_input_def labels_doc_def labels_tree_def)

lemma labels_locator:
  "generateLocator email_input labels_doc
     = Inr \<lparr>loc_type = ByXPath,
             loc_value = ''//label[normalize-space()='' @ apos @ ''Email'' @ apos
                           @ '']/following-sibling::input'',
             loc_score = 50\<rparr>"
proof -
  have "generateRelativeXPath email_input labels_doc
          = Some (''//label[normalize-space()='' @ apos @ ''Email'' @ apos
                    @ '']/following-sibling::input'', 95)"
    using labels_anchor by (simp add: generateRelativeXPath_def labels_tag)
  then have "relative_strategy email_input labels_doc
          = Inr (Some \<lparr>loc_type = ByXPath,
                       loc_value = ''//label[normalize-space()='' @ apos @ ''Email'' @ apos
                                     @ '']/following-sibling::input'',
                       loc_score = 50\<rparr>)"
    by (simp add: relative_strategy_def)
  then show ?thesis
    using labels_direct by (simp add: generateLocator_def first_viable_skip)
qed


text \<open>
  C2, as the code has it. When every strategy before the relative locator lets the next one
  run and the loop over the preceding siblings finds an anchor, the builder gives its
  compound expression the score 95, and \<open>generateLocator\<close> returns that expression with
  the score 50 of its own tier.
\<close>

theorem relative_locator_score:
  assumes "list_all (\<lambda>t. t = Inr None) (direct_strategies el doc)"
    and "precedingSiblingAnchor doc (toLowerCase (tagName el)) (previousElementSiblings doc el)
           = Some (x, s)"
  shows "s = 95
         \<and> generateLocator el doc = Inr \<lparr>loc_type = ByXPath, loc_value = x, loc_score = 50\<rparr>"
proof -
  have s: "s = 95"
    using precedingSiblingAnchor_Some [OF assms(2)] by simp
  have "generateRelativeXPath el doc = Some (x, s)"
    using assms(2) by (simp add: generateRelativeXPath_def Let_def)
  then have r: "relative_strategy el doc
                  = Inr (Some \<lparr>loc_type = ByXPath, loc_value = x, loc_score = 50\<rparr>)"
    by (simp add: relative_strategy_def)
  have "generateLocator el doc
          = first_viable [relative_strategy el doc]
              \<lparr>loc_type = ByXPath, loc_value = getAbsoluteXPath doc el, loc_score = 10\<rparr>"
    unfolding generateLocator_def by (rule first_viable_skip [OF assms(1)])
  with r s show ?thesis
    by simp
qed

theorem relative_locator_score_witness:
  "list_all (\<lambda>t. t = Inr None) (direct_strategies email_input labels_doc)
   \<and> precedingSiblingAnchor labels_doc (toLowerCase (tagName email_input))
        (previousElementSiblings labels_doc email_input)
       = Some (''//label[normalize-space()='' @ apos @ ''Email'' @ apos
                 @ '']/following-sibling::input'', 95)
   \<and> generateLocator email_input labels_doc
       = Inr \<lparr>loc_type = ByXPath,
               loc_value = ''//label[normalize-space()='' @ apos @ ''Email'' @ apos
                             @ '']/following-sibling::input'',
               loc_score = 50\<rparr>"
proof -
  have a: "precedingSiblingAnchor labels_doc (toLowerCase (tagName email_input))
             (previousElementSiblings labels_doc email_input)
           = Some (''//label[normalize-space()='' @ apos @ ''Email'' @ apos
                     @ '']/following-sibling::input'', 95)"
    using labels_anchor by (simp add: labels_tag)
  show ?thesis
    using relative_locator_score [OF labels_direct a] labels_direct a by simp
qed


text \<open>
  The claim as written fails on the first input of the two labelled inputs: the builder
  succeeds by the preceding label, and the locator returned carries 50, not 95.
\<close>

theorem relative_locator_not_95:
  "direct_strategies email_input labels_doc
     = [Inr None, Inr None, Inr None, Inr None, Inr None, Inr None, Inr None, Inr None]
   \<and> precedingSiblingAnchor labels_doc ''input'' (previousElementSiblings labels_doc email_input)
       = Some (''//label[normalize-space()='' @ apos @ ''Email'' @ apos
                 @ '']/following-sibling::input'', 95)
   \<and> map_sum id loc_score (generateLocator email_input labels_doc) = Inr 50"
proof -
  have "direct_strategies email_input labels_doc
          = [Inr None, Inr None, Inr None, Inr None, Inr None, Inr None, Inr None, Inr None]"
    by (simp add: locator_eval char_eval email_input_def labels_doc_def labels_tree_def)
  then show ?thesis
    using labels_anchor labels_locator by simp
qed

section \<open>Evaluation of the other examples\<close>

lemma digit3: "string_of_nat (Suc (Suc (Suc 0))) = ''3''"
  by (subst string_of_nat.simps, simp add: digit_char_def)

lemma dots_nodes: "interactive_nodes dots_doc = [dots_button]"
  by (simp add: interactive_nodes_def all_elements_def dots_doc_def dots_tree_def
      INTERACTIVE_TAGS_def tagName_def char_eval dots_button_def)

lemma dots_hidden: "\<not> (tagName dots_button = ''INPUT'' \<and> input_type dots_button = ''hidden'')"
  by (simp add: hidden_eval char_eval dots_button_def)

lemma dots_tag: "toLowerCase (tagName dots_button) = ''button''"
  by (simp add: tagName_def char_eval dots_button_def)

lemma dots_clean: "sanitize (cleanText (nameBase dots_button)) = []"
  by (simp add: name_eval char_eval dots_button_def)

lemma dots_name:
  "generateVarName rand k (cleanText (nameBase dots_button)) ''button''
     = (''element_'' @ string_of_nat (rand k mod 1000) @ ''_button'', Suc k)"
  by (simp add: generateVarName_def dots_clean)

lemma dots_locator:
  "generateLocator dots_button dots_doc
     = Inr \<lparr>loc_type = ByTagName, loc_value = ''button'', loc_score = 70\<rparr>"
  by (simp add: locator_eval char_eval dots_button_def dots_doc_def dots_tree_def)

lemma dots_scrape:
  "scrape e dots_doc (interactive_nodes dots_doc) [] 0 0 =
     Inr ([\<lparr>ed_id = randomUUID e 0,
             ed_name = ''element_'' @ string_of_nat (random e 0 mod 1000) @ ''_button'',
             locatorType = ByTagName, locatorValue = ''button'',
             description = ''Auto-generated for <button>''\<rparr>], Suc 0, Suc 0)"
  by (simp add: dots_nodes dots_hidden dots_tag dots_name dots_locator Let_def)

lemma derive_menu: "derivePageName None ''Menu'' = ''MenuPage''"
  by (simp add: derivePageName_def char_eval)

lemma snake_menu: "snakeCase ''MenuPage'' = ''menu_page''"
  by (simp add: char_eval)

lemma dots_analysis:
  "analyzeDomAndGenerateSchema browser dots_html ''not a url'' =
     Inr \<lparr>pages =
            [\<lparr>page_id = ''uuid-3'', page_name = ''MenuPage'',
              elements =
                [\<lparr>ed_id = ''uuid-0'', ed_name = ''element_7_button'', locatorType = ByTagName,
                   locatorValue = ''button'', description = ''Auto-generated for <button>''\<rparr>]\<rparr>],
          tests =
            [\<lparr>test_id = ''uuid-1'', test_name = ''test_menu_page_basic_interactions'',
              test_type = ''smoke'',
              steps =
                [\<lparr>step_id = ''uuid-2'', action = ''click'', step_value = None,
                   step_description = ''Interact with element_7_button''\<rparr>]\<rparr>]\<rparr>"
proof -
  have p: "parseFromString browser dots_html = dots_doc"
    by (simp add: browser_def dots_html_def login_html_def labels_html_def)
  have u: "URL_pathname browser ''not a url'' = None"
    by (simp add: browser_def)
  have t: "title dots_doc = ''Menu''"
    by (simp add: dots_doc_def)
  have ids: "randomUUID browser = (\<lambda>k. ''uuid-'' @ string_of_nat k)"
    and rnd: "random browser = (\<lambda>k. 7)"
    by (simp_all add: browser_def)
  show ?thesis
    by (simp add: analyzeDomAndGenerateSchema_def p u t derive_menu snake_menu dots_scrape
        tests_eval ids rnd digits_eval digit3 del: snakeCase.simps)
qed

lemma dots_analysis_other:
  "analyzeDomAndGenerateSchema other_browser dots_html ''not a url'' =
     Inr \<lparr>pages =
            [\<lparr>page_id = ''id-3'', page_name = ''MenuPage'',
              elements =
                [\<lparr>ed_id = ''id-0'', ed_name = ''element_8_button'', locatorType = ByTagName,
                   locatorValue = ''button'', description = ''Auto-generated for <button>''\<rparr>]\<rparr>],
          tests =
            [\<lparr>test_id = ''id-1'', test_name = ''test_menu_page_basic_interactions'',
              test_type = ''smoke'',
              steps =
                [\<lparr>step_id = ''id-2'', action = ''click'', step_value = None,
                   step_description = ''Interact with element_8_button''\<rparr>]\<rparr>]\<rparr>"
proof -
  have p: "parseFromString other_browser dots_html = dots_doc"
    by (simp add: other_browser_def browser_def dots_html_def login_html_def labels_html_def)
  have u: "URL_pathname other_browser ''not a url'' = None"
    by (simp add: other_browser_def browser_def)
  have t: "title dots_doc = ''Menu''"
    by (simp add: dots_doc_def)
  have ids: "randomUUID other_browser = (\<lambda>k. ''id-'' @ string_of_nat k)"
    and rnd: "random other_browser = (\<lambda>k. 8)"
    by (simp_all add: other_browser_def)
  show ?thesis
    by (simp add: analyzeDomAndGenerateSchema_def p u t derive_menu snake_menu dots_scrape
        tests_eval ids rnd digits_eval digit3 del: snakeCase.simps)
qed

lemma about_nodes: "interactive_nodes about_doc = []"
  by (simp add: interactive_nodes_def all_elements_def about_doc_def about_tree_def
      INTERACTIVE_TAGS_def tagName_def char_eval)

lemma about_parse: "parseFromString browser about_html = about_doc"
  by (simp add: browser_def about_html_def login_html_def labels_html_def dots_html_def
      quote_html_def)

lemma derive_about: "derivePageName None ''About'' = ''AboutPage''"
  by (simp add: derivePageName_def char_eval)

lemma quote_nodes: "interactive_nodes quote_doc = [quote_input]"
  by (simp add: interactive_nodes_def all_elements_def quote_doc_def quote_tree_def
      INTERACTIVE_TAGS_def tagName_def char_eval quote_input_def)

lemma quote_hidden: "\<not> (tagName quote_input = ''INPUT'' \<and> input_type quote_input = ''hidden'')"
  by (simp add: hidden_eval char_eval quote_input_def)

lemma quote_locator:
  \<open>generateLocator quote_input quote_doc = Inl (SyntaxError ''[name="a"b"]'')\<close>
  by (simp add: locator_eval char_eval quote_input_def quote_doc_def quote_tree_def)

lemma quote_parse: "parseFromString browser quote_html = quote_doc"
  by (simp add: browser_def quote_html_def login_html_def labels_html_def dots_html_def)


section \<open>Malformed selectors\<close>

text \<open>
  C6. The count of a path expression never throws: \<open>evaluateXpath\<close> is total and counts
  no match where the engine throws. The count of a selector built from the id, the name
  or another attribute is taken outside any \<open>try\<close>: on the input whose name holds a
  double quote the exception leaves \<open>generateLocator\<close> and ends the whole analysis.
\<close>

theorem malformed_selector_propagates:
  \<open>generateLocator quote_input quote_doc = Inl (SyntaxError ''[name="a"b"]'')
   \<and> analyzeDomAndGenerateSchema browser quote_html ''https://shop.example.com/login''
       = Inl (SyntaxError ''[name="a"b"]'')\<close>
  by (simp add: analyzeDomAndGenerateSchema_def quote_parse quote_nodes quote_hidden
      quote_locator)

section \<open>The tests\<close>

lemma analysis_result:
  assumes "analyzeDomAndGenerateSchema e html url = Inr r"
  obtains els k u where
    "scrape e (parseFromString e html) (interactive_nodes (parseFromString e html)) [] 0 0
       = Inr (els, k, u)"
    and "pages r = [\<lparr>page_id = randomUUID e (snd (generateTests (randomUUID e) u
                     (snakeCase (derivePageName (URL_pathname e url) (title (parseFromString e html))))
                     els)),
                   page_name = derivePageName (URL_pathname e url) (title (parseFromString e html)),
                   elements = els\<rparr>]"
    and "tests r = fst (generateTests (randomUUID e) u
                     (snakeCase (derivePageName (URL_pathname e url) (title (parseFromString e html))))
                     els)"
  using assms
  by (auto simp: analyzeDomAndGenerateSchema_def Let_def split: sum.splits prod.splits)

lemma login_test_present:
  "(\<exists>t\<in>set (fst (generateTests uuid u sp els)). test_name t = ''test_'' @ sp @ ''_login_flow'')
   \<longleftrightarrow> (filter (name_includes [''user'', ''email'', ''login'']) els \<noteq> []
        \<and> filter (name_includes [''pass'']) els \<noteq> []
        \<and> filter (name_includes [''submit'', ''login'', ''sign_in'']) els \<noteq> [])"
  by (auto simp: generateTests_def loginFlow_def searchFlow_def genericFlow_def Let_def)

lemma search_test_present:
  "(\<exists>t\<in>set (fst (generateTests uuid u sp els)). test_name t = ''test_'' @ sp @ ''_search'')
   \<longleftrightarrow> filter (name_includes [''search'', ''query'']) els \<noteq> []"
  by (auto simp: generateTests_def loginFlow_def searchFlow_def genericFlow_def Let_def)

lemma generic_test_present:
  "(\<exists>t\<in>set (fst (generateTests uuid u sp els)).
      test_name t = ''test_'' @ sp @ ''_basic_interactions'')
   \<longleftrightarrow> (\<not> (filter (name_includes [''user'', ''email'', ''login'']) els \<noteq> []
            \<and> filter (name_includes [''pass'']) els \<noteq> []
            \<and> filter (name_includes [''submit'', ''login'', ''sign_in'']) els \<noteq> [])
        \<and> filter (name_includes [''search'', ''query'']) els = []
        \<and> els \<noteq> [])"
  by (auto simp: generateTests_def loginFlow_def searchFlow_def genericFlow_def Let_def)

lemma no_tests_without_elements: "fst (generateTests uuid u sp []) = []"
  by (simp add: generateTests_def loginFlow_def searchFlow_def genericFlow_def)

lemma no_draw_without_elements: "snd (generateTests uuid u sp []) = u"
  by (simp add: generateTests_def loginFlow_def searchFlow_def genericFlow_def)


text \<open>
  C8. The generic test is among the tests exactly when neither the login test nor the search
  test is and the page has an element. A document without interactive elements gives a
  page without elements and no test, and no error.
\<close>

theorem generic_fallback_exactly:
  "(interactive_nodes (parseFromString e html) = [] \<longrightarrow>
      analyzeDomAndGenerateSchema e html url
        = Inr \<lparr>pages = [\<lparr>page_id = randomUUID e 0,
                          page_name = derivePageName (URL_pathname e url)
                                        (title (parseFromString e html)),
                          elements = []\<rparr>],
               tests = []\<rparr>)
   \<and> (\<forall>r. analyzeDomAndGenerateSchema e html url = Inr r \<longrightarrow>
         (\<exists>p. pages r = [p]
            \<and> ((\<exists>t\<in>set (tests r).
                   test_name t = ''test_'' @ snakeCase (page_name p) @ ''_basic_interactions'')
                \<longleftrightarrow> (\<not> (\<exists>t\<in>set (tests r).
                             test_name t = ''test_'' @ snakeCase (page_name p) @ ''_login_flow''
                             \<or> test_name t = ''test_'' @ snakeCase (page_name p) @ ''_search'')
                     \<and> elements p \<noteq> []))))"
proof (intro conjI impI allI)
  assume "interactive_nodes (parseFromString e html) = []"
  then show "analyzeDomAndGenerateSchema e html url
        = Inr \<lparr>pages = [\<lparr>page_id = randomUUID e 0,
                          page_name = derivePageName (URL_pathname e url)
                                        (title (parseFromString e html)),
                          elements = []\<rparr>],
               tests = []\<rparr>"
    by (simp add: analyzeDomAndGenerateSchema_def Let_def no_tests_without_elements
        no_draw_without_elements)
next
  fix r
  assume a: "analyzeDomAndGenerateSchema e html url = Inr r"
  define sp where
    "sp = snakeCase (derivePageName (URL_pathname e url) (title (parseFromString e html)))"
  from a obtain els u p where p: "pages r = [p]" and els: "elements p = els"
    and sp': "snakeCase (page_name p) = sp"
    and t: "tests r = fst (generateTests (randomUUID e) u sp els)"
    unfolding sp_def by (rule analysis_result) simp
  have "(\<exists>t\<in>set (tests r). test_name t = ''test_'' @ sp @ ''_basic_interactions'')
        \<longleftrightarrow> (\<not> (\<exists>t\<in>set (tests r). test_name t = ''test_'' @ sp @ ''_login_flow''
                             \<or> test_name t = ''test_'' @ sp @ ''_search'')
             \<and> els \<noteq> [])"
    unfolding t generic_test_present bex_disj_distrib login_test_present search_test_present
    by blast
  with p els sp' show "\<exists>p. pages r = [p]
            \<and> ((\<exists>t\<in>set (tests r).
                   test_name t = ''test_'' @ snakeCase (page_name p) @ ''_basic_interactions'')
                \<longleftrightarrow> (\<not> (\<exists>t\<in>set (tests r).
                             test_name t = ''test_'' @ snakeCase (page_name p) @ ''_login_flow''
                             \<or> test_name t = ''test_'' @ snakeCase (page_name p) @ ''_search'')
                     \<and> elements p \<noteq> []))"
    by simp
qed

theorem generic_fallback_exactly_witness:
  "analyzeDomAndGenerateSchema browser about_html ''not a url''
     = Inr \<lparr>pages = [\<lparr>page_id = ''uuid-0'', page_name = ''AboutPage'', elements = []\<rparr>],
            tests = []\<rparr>
   \<and> (\<exists>r. analyzeDomAndGenerateSchema browser dots_html ''not a url'' = Inr r
          \<and> map test_name (tests r) = [''test_menu_page_basic_interactions''])"
proof -
  have u: "URL_pathname browser ''not a url'' = None"
    by (simp add: browser_def)
  have t: "title about_doc = ''About''"
    by (simp add: about_doc_def)
  have ids: "randomUUID browser 0 = ''uuid-0''"
    by (simp add: browser_def digits_eval)
  have "interactive_nodes (parseFromString browser about_html) = []"
    by (simp add: about_parse about_nodes)
  with generic_fallback_exactly [of browser about_html "''not a url''"]
  have "analyzeDomAndGenerateSchema browser about_html ''not a url''
     = Inr \<lparr>pages = [\<lparr>page_id = ''uuid-0'', page_name = ''AboutPage'', elements = []\<rparr>],
            tests = []\<rparr>"
    by (simp add: about_parse u t ids derive_about)
  then show ?thesis
    by (simp add: dots_analysis)
qed


subsection \<open>Generated names have no capital letter\<close>

lemma lower_char_not_upper: "\<not> is_upper (lower_char c)"
  by (auto simp: lower_char_def is_upper_def)

lemma toLowerCase_not_upper: "c \<in> set (toLowerCase s) \<Longrightarrow> \<not> is_upper c"
  by (auto simp: toLowerCase_def lower_char_not_upper)

lemma toLowerCase_fixed: "\<forall>c\<in>set s. \<not> is_upper c \<Longrightarrow> toLowerCase s = s"
  by (induction s) (auto simp: toLowerCase_def lower_char_def)

lemma strip_underscores_subset: "set (strip_underscores s) \<subseteq> set s"
  by (auto simp: strip_underscores_def dest!: set_dropWhileD)

lemma sanitize_not_upper:
  assumes "c \<in> set (sanitize base)"
  shows "\<not> is_upper c"
proof -
  let ?f = "\<lambda>c. if is_lower c \<or> is_digit c then c else CHR ''_''"
  have "set (sanitize base) \<subseteq> set (map ?f (toLowerCase base))"
    unfolding sanitize_def by (rule strip_underscores_subset)
  with assms have "c \<in> ?f ` set (toLowerCase base)"
    unfolding set_map by blast
  then obtain x where "c = ?f x"
    by blast
  then show ?thesis
    by (cases "is_lower x \<or> is_digit x") (auto simp: is_upper_def is_lower_def is_digit_def)
qed

lemma digit_char_not_upper: "\<not> is_upper (digit_char d)"
proof -
  have "digit_char d \<in> set ''0123456789''"
    unfolding digit_char_def by (rule nth_mem) simp
  then show ?thesis
    by (auto simp: is_upper_def)
qed

lemma string_of_nat_not_upper: "c \<in> set (string_of_nat n) \<Longrightarrow> \<not> is_upper c"
proof (induction n rule: string_of_nat.induct)
  case (1 n)
  show ?case
  proof (cases "n < 10")
    case True
    with "1.prems" show ?thesis
      by (subst (asm) string_of_nat.simps) (simp add: digit_char_not_upper)
  next
    case False
    with "1.prems" have "c \<in> set (string_of_nat (n div 10)) \<or> c = digit_char (n mod 10)"
      by (subst (asm) string_of_nat.simps) auto
    with False "1.IH" show ?thesis
      by (auto simp: digit_char_not_upper)
  qed
qed

lemma generateVarName_not_upper:
  assumes "c \<in> set (fst (generateVarName rand k base (toLowerCase t)))"
  shows "\<not> is_upper c"
proof (cases "sanitize base = []")
  case True
  with assms have "c \<in> set ''element_'' \<or> c \<in> set (string_of_nat (rand k mod 1000))
                   \<or> c = CHR ''_'' \<or> c \<in> set (toLowerCase t)"
    by (auto simp: generateVarName_def Let_def)
  then show ?thesis
    using string_of_nat_not_upper toLowerCase_not_upper by (auto simp: is_upper_def)
next
  case False
  with assms have "c \<in> set (sanitize base) \<or> c = CHR ''_'' \<or> c \<in> set (toLowerCase t)"
    by (auto simp: generateVarName_def Let_def)
  then show ?thesis
    using sanitize_not_upper toLowerCase_not_upper by (auto simp: is_upper_def)
qed

lemma scrape_step:
  assumes "scrape e doc (el # rest) els k u = Inr res"
  obtains
    (hidden) "hidden_input el" and "scrape e doc rest els k u = Inr res"
  | (known) loc where "\<not> hidden_input el" and "generateLocator el doc = Inr loc"
      and "list_ex (\<lambda>d. ed_name d = fst (generateVarName (random e) k (cleanText (nameBase el))
                                          (toLowerCase (tagName el)))) els"
      and "scrape e doc rest els
             (snd (generateVarName (random e) k (cleanText (nameBase el))
                     (toLowerCase (tagName el)))) u = Inr res"
  | (fresh) loc where "\<not> hidden_input el" and "generateLocator el doc = Inr loc"
      and "\<not> list_ex (\<lambda>d. ed_name d = fst (generateVarName (random e) k (cleanText (nameBase el))
                                            (toLowerCase (tagName el)))) els"
      and "scrape e doc rest
             (els @ [\<lparr>ed_id = randomUUID e u,
                      ed_name = fst (generateVarName (random e) k (cleanText (nameBase el))
                                       (toLowerCase (tagName el))),
                      locatorType = loc_type loc, locatorValue = loc_value loc,
                      description = ''Auto-generated for <'' @ toLowerCase (tagName el) @ ''>''\<rparr>])
             (snd (generateVarName (random e) k (cleanText (nameBase el))
                     (toLowerCase (tagName el)))) (Suc u) = Inr res"
proof (cases "hidden_input el")
  case True
  with assms have "scrape e doc rest els k u = Inr res"
    by (simp add: hidden_input_def)
  with True show ?thesis by (rule hidden)
next
  case False
  then have h: "\<not> (tagName el = ''INPUT'' \<and> input_type el = ''hidden'')"
    by (simp add: hidden_input_def)
  from assms obtain loc where loc: "generateLocator el doc = Inr loc"
    unfolding scrape.simps if_not_P [OF h] by (cases "generateLocator el doc") auto
  show ?thesis
  proof (cases "list_ex (\<lambda>d. ed_name d = fst (generateVarName (random e) k
                  (cleanText (nameBase el)) (toLowerCase (tagName el)))) els")
    case True
    with assms show ?thesis
      unfolding scrape.simps if_not_P [OF h] loc
      by (intro known [OF False loc True]) (simp add: Let_def)
  next
    case new: False
    with assms show ?thesis
      unfolding scrape.simps if_not_P [OF h] loc
      by (intro fresh [OF False loc new]) (simp add: Let_def)
  qed
qed

lemma scrape_names_not_upper:
  "scrape e doc nodes els k u = Inr res \<Longrightarrow>
   \<forall>d\<in>set els. \<forall>c\<in>set (ed_name d). \<not> is_upper c \<Longrightarrow>
   \<forall>d\<in>set (fst res). \<forall>c\<in>set (ed_name d). \<not> is_upper c"
proof (induction nodes arbitrary: els k u)
  case Nil
  then show ?case by auto
next
  case (Cons el rest)
  from Cons.prems(1) show ?case
  proof (cases rule: scrape_step)
    case hidden
    then show ?thesis using Cons.IH Cons.prems(2) by blast
  next
    case (known loc)
    then show ?thesis using Cons.IH Cons.prems(2) by blast
  next
    case (fresh loc)
    have "\<forall>c\<in>set (fst (generateVarName (random e) k (cleanText (nameBase el))
                          (toLowerCase (tagName el)))). \<not> is_upper c"
      using generateVarName_not_upper by blast
    with Cons.prems(2) show ?thesis
      by (intro Cons.IH [OF fresh(4)]) auto
  qed
qed

lemma keys_lower:
  "toLowerCase ''user'' = ''user''" "toLowerCase ''email'' = ''email''"
  "toLowerCase ''login'' = ''login''" "toLowerCase ''pass'' = ''pass''"
  "toLowerCase ''submit'' = ''submit''" "toLowerCase ''sign_in'' = ''sign_in''"
  by (simp_all add: char_eval)

lemma name_includes_ci_eq:
  assumes "\<forall>c\<in>set (ed_name d). \<not> is_upper c"
  shows "name_includes_ci [''user'', ''email'', ''login''] d
           = name_includes [''user'', ''email'', ''login''] d"
    and "name_includes_ci [''pass''] d = name_includes [''pass''] d"
    and "name_includes_ci [''submit'', ''login'', ''sign_in''] d
           = name_includes [''submit'', ''login'', ''sign_in''] d"
  using toLowerCase_fixed [OF assms]
  by (simp_all add: name_includes_ci_def name_includes_def includes_ci_def keys_lower)

lemma find_hd_filter: "filter P xs \<noteq> [] \<Longrightarrow> find P xs = Some (hd (filter P xs))"
  by (induction xs) auto

lemma login_test_steps:
  assumes "t \<in> set (fst (generateTests uuid u sp els))"
    and "test_name t = ''test_'' @ sp @ ''_login_flow''"
  shows "map step_content (steps t) =
           [(''input'', Some ''standard_user'',
             ''Enter username into ''
               @ ed_name (hd (filter (name_includes [''user'', ''email'', ''login'']) els))),
            (''input'', Some ''secret_sauce'',
             ''Enter password into '' @ ed_name (hd (filter (name_includes [''pass'']) els))),
            (''click'', Some [],
             ''Click ''
               @ ed_name (hd (filter (name_includes [''submit'', ''login'', ''sign_in'']) els))),
            (''assert_visible'', Some ''dashboard'', ''Verify successful login location'')]"
  using assms
  by (auto simp: generateTests_def loginFlow_def searchFlow_def genericFlow_def Let_def
      step_content_def split: if_splits)

text \<open>
  C7. The login test is among the tests exactly when the elements of the page hold a name
  with \<open>user\<close>, \<open>email\<close> or \<open>login\<close>, a name with \<open>pass\<close>, and a name with \<open>submit\<close>,
  \<open>login\<close> or \<open>sign_in\<close>, case ignored. Its steps are four, in this order: fill the first
  element of the first kind, fill the first of the second kind, click the first of the
  third kind, assert that \<open>dashboard\<close> is visible.
\<close>

theorem login_flow_iff:
  assumes "analyzeDomAndGenerateSchema e html url = Inr r"
  shows "\<exists>p. pages r = [p]
    \<and> ((\<exists>t\<in>set (tests r). test_name t = ''test_'' @ snakeCase (page_name p) @ ''_login_flow'')
        \<longleftrightarrow> (list_ex (name_includes_ci [''user'', ''email'', ''login'']) (elements p)
             \<and> list_ex (name_includes_ci [''pass'']) (elements p)
             \<and> list_ex (name_includes_ci [''submit'', ''login'', ''sign_in'']) (elements p)))
    \<and> (\<forall>t\<in>set (tests r).
          test_name t = ''test_'' @ snakeCase (page_name p) @ ''_login_flow'' \<longrightarrow>
          (\<exists>usr pw sub.
             find (name_includes_ci [''user'', ''email'', ''login'']) (elements p) = Some usr
             \<and> find (name_includes_ci [''pass'']) (elements p) = Some pw
             \<and> find (name_includes_ci [''submit'', ''login'', ''sign_in'']) (elements p) = Some sub
             \<and> map step_content (steps t) =
                 [(''input'', Some ''standard_user'', ''Enter username into '' @ ed_name usr),
                  (''input'', Some ''secret_sauce'', ''Enter password into '' @ ed_name pw),
                  (''click'', Some [], ''Click '' @ ed_name sub),
                  (''assert_visible'', Some ''dashboard'',
                   ''Verify successful login location'')]))"
proof -
  define sp where
    "sp = snakeCase (derivePageName (URL_pathname e url) (title (parseFromString e html)))"
  let ?U = "[''user'', ''email'', ''login'']"
  let ?P = "[''pass'']"
  let ?S = "[''submit'', ''login'', ''sign_in'']"
  from assms obtain els k u p where
    s: "scrape e (parseFromString e html) (interactive_nodes (parseFromString e html)) [] 0 0
          = Inr (els, k, u)"
    and p: "pages r = [p]" and els: "elements p = els"
    and sp': "snakeCase (page_name p) = sp"
    and t: "tests r = fst (generateTests (randomUUID e) u sp els)"
    unfolding sp_def by (rule analysis_result) simp
  have low: "\<forall>d\<in>set els. \<forall>c\<in>set (ed_name d). \<not> is_upper c"
    using scrape_names_not_upper [OF s] by simp
  have fU: "filter (name_includes_ci ?U) els = filter (name_includes ?U) els"
    and fP: "filter (name_includes_ci ?P) els = filter (name_includes ?P) els"
    and fS: "filter (name_includes_ci ?S) els = filter (name_includes ?S) els"
    using low by (auto intro!: filter_cong simp: name_includes_ci_eq)
  have ex: "list_ex Q els \<longleftrightarrow> filter Q els \<noteq> []" for Q :: "ElementDefinition \<Rightarrow> bool"
    by (simp add: list_ex_iff filter_empty_conv)
  have fi: "filter Q els \<noteq> [] \<Longrightarrow> find Q els = Some (hd (filter Q els))"
    for Q :: "ElementDefinition \<Rightarrow> bool"
    by (rule find_hd_filter)
  have present: "(\<exists>t\<in>set (tests r). test_name t = ''test_'' @ sp @ ''_login_flow'')
        \<longleftrightarrow> (list_ex (name_includes_ci ?U) els \<and> list_ex (name_includes_ci ?P) els
             \<and> list_ex (name_includes_ci ?S) els)"
    unfolding t login_test_present ex fU fP fS by (rule refl)
  have content: "\<exists>usr pw sub.
             find (name_includes_ci ?U) els = Some usr
             \<and> find (name_includes_ci ?P) els = Some pw
             \<and> find (name_includes_ci ?S) els = Some sub
             \<and> map step_content (steps t') =
                 [(''input'', Some ''standard_user'', ''Enter username into '' @ ed_name usr),
                  (''input'', Some ''secret_sauce'', ''Enter password into '' @ ed_name pw),
                  (''click'', Some [], ''Click '' @ ed_name sub),
                  (''assert_visible'', Some ''dashboard'',
                   ''Verify successful login location'')]"
    if t': "t' \<in> set (tests r)" and n: "test_name t' = ''test_'' @ sp @ ''_login_flow''" for t'
  proof -
    from t' n have "\<exists>t\<in>set (tests r). test_name t = ''test_'' @ sp @ ''_login_flow''"
      by blast
    then have ne: "filter (name_includes_ci ?U) els \<noteq> []"
      "filter (name_includes_ci ?P) els \<noteq> []" "filter (name_includes_ci ?S) els \<noteq> []"
      unfolding present ex by simp_all
    from t' have "t' \<in> set (fst (generateTests (randomUUID e) u sp els))"
      by (simp add: t)
    from login_test_steps [OF this n] fi [OF ne(1)] fi [OF ne(2)] fi [OF ne(3)]
    show ?thesis
      unfolding fU fP fS by simp
  qed
  from p els sp' present content show ?thesis
    by blast
qed

theorem login_flow_iff_witness:
  "\<exists>r p. analyzeDomAndGenerateSchema browser login_html
            ''https://shop.example.com/products/42'' = Inr r
     \<and> pages r = [p]
     \<and> list_ex (name_includes_ci [''user'', ''email'', ''login'']) (elements p)
     \<and> list_ex (name_includes_ci [''pass'']) (elements p)
     \<and> list_ex (name_includes_ci [''submit'', ''login'', ''sign_in'']) (elements p)
     \<and> list_ex (\<lambda>t. test_name t = ''test_products_page_login_flow'') (tests r)"
  using login_flow_iff [OF login_analysis]
  by (simp add: login_analysis snake_products del: snakeCase.simps)

section \<open>The elements of the page\<close>

lemma scraped_Cons:
  "scraped e doc (el # rest) k =
     (if hidden_input el then scraped e doc rest k
      else (fst (generateVarName (random e) k (cleanText (nameBase el))
                   (toLowerCase (tagName el))), el)
           # scraped e doc rest
               (snd (generateVarName (random e) k (cleanText (nameBase el))
                       (toLowerCase (tagName el)))))"
  by (simp add: hidden_input_def Let_def)

lemma filter_first_occurrences:
  "filter P (filter (\<lambda>y. y \<noteq> x) xs) = filter (\<lambda>y. y \<noteq> x) (filter P xs)"
  by (induction xs) auto

lemma first_occurrences_set: "set (first_occurrences xs) = set xs"
  by (induction xs) auto

lemma first_occurrences_distinct: "distinct (first_occurrences xs)"
  by (induction xs) auto

lemma list_ex_name: "list_ex (\<lambda>d. ed_name d = n) els \<longleftrightarrow> n \<in> set (map ed_name els)"
  by (induction els) auto

lemma scrape_names:
  "scrape e doc nodes els k u = Inr res \<Longrightarrow>
   map ed_name (fst res)
     = map ed_name els
       @ filter (\<lambda>n. n \<notin> set (map ed_name els))
           (first_occurrences (map fst (scraped e doc nodes k)))"
proof (induction nodes arbitrary: els k u)
  case Nil
  then show ?case by auto
next
  case (Cons el rest)
  let ?n = "fst (generateVarName (random e) k (cleanText (nameBase el))
                   (toLowerCase (tagName el)))"
  let ?k = "snd (generateVarName (random e) k (cleanText (nameBase el))
                   (toLowerCase (tagName el)))"
  from Cons.prems show ?case
  proof (cases rule: scrape_step)
    case hidden
    then show ?thesis
      using Cons.IH by (simp add: scraped_Cons del: scraped.simps)
  next
    case (known loc)
    from known(3) have in_els: "?n \<in> set (map ed_name els)"
      unfolding list_ex_name .
    have "filter (\<lambda>n. n \<notin> set (map ed_name els))
            (filter (\<lambda>y. y \<noteq> ?n) (first_occurrences (map fst (scraped e doc rest ?k))))
          = filter (\<lambda>n. n \<notin> set (map ed_name els))
              (first_occurrences (map fst (scraped e doc rest ?k)))"
      unfolding filter_filter using in_els by (intro filter_cong) auto
    with known(1) in_els Cons.IH [OF known(4)] show ?thesis
      by (simp add: scraped_Cons del: scraped.simps)
  next
    case (fresh loc)
    from fresh(3) have new: "?n \<notin> set (map ed_name els)"
      unfolding list_ex_name .
    have "filter (\<lambda>n. n \<notin> set (map ed_name els))
            (filter (\<lambda>y. y \<noteq> ?n) (first_occurrences (map fst (scraped e doc rest ?k))))
          = filter (\<lambda>n. n \<noteq> ?n \<and> n \<notin> set (map ed_name els))
              (first_occurrences (map fst (scraped e doc rest ?k)))"
      unfolding filter_filter by (intro filter_cong) auto
    with fresh(1) new Cons.IH [OF fresh(4)] show ?thesis
      by (simp add: scraped_Cons del: scraped.simps)
  qed
qed

lemma scrape_origin:
  "scrape e doc nodes els k u = Inr res \<Longrightarrow>
   \<forall>d\<in>set (fst res).
      d \<in> set els
      \<or> (ed_name d \<notin> set (map ed_name els)
          \<and> (\<exists>el. map_of (scraped e doc nodes k) (ed_name d) = Some el \<and> defined_from doc el d))"
proof (induction nodes arbitrary: els k u)
  case Nil
  then show ?case by auto
next
  case (Cons el rest)
  let ?n = "fst (generateVarName (random e) k (cleanText (nameBase el))
                   (toLowerCase (tagName el)))"
  let ?k = "snd (generateVarName (random e) k (cleanText (nameBase el))
                   (toLowerCase (tagName el)))"
  from Cons.prems show ?case
  proof (cases rule: scrape_step)
    case hidden
    then show ?thesis
      using Cons.IH by (simp add: scraped_Cons del: scraped.simps)
  next
    case (known loc)
    from known(3) have in_els: "?n \<in> set (map ed_name els)"
      unfolding list_ex_name .
    show ?thesis
    proof
      fix d assume "d \<in> set (fst res)"
      with Cons.IH [OF known(4)] have
        "d \<in> set els
         \<or> (ed_name d \<notin> set (map ed_name els)
             \<and> (\<exists>el. map_of (scraped e doc rest ?k) (ed_name d) = Some el
                     \<and> defined_from doc el d))"
        by blast
      moreover have "ed_name d \<noteq> ?n" if "ed_name d \<notin> set (map ed_name els)"
        using that in_els by auto
      ultimately show
        "d \<in> set els
         \<or> (ed_name d \<notin> set (map ed_name els)
             \<and> (\<exists>el'. map_of (scraped e doc (el # rest) k) (ed_name d) = Some el'
                      \<and> defined_from doc el' d))"
        using known(1) by (auto simp: scraped_Cons simp del: scraped.simps)
    qed
  next
    case (fresh loc)
    let ?d = "\<lparr>ed_id = randomUUID e u, ed_name = ?n,
               locatorType = loc_type loc, locatorValue = loc_value loc,
               description = ''Auto-generated for <'' @ toLowerCase (tagName el) @ ''>''\<rparr>"
    from fresh(3) have new: "?n \<notin> set (map ed_name els)"
      unfolding list_ex_name .
    have d0: "defined_from doc el ?d"
      by (simp add: defined_from_def fresh(2))
    show ?thesis
    proof
      fix d assume "d \<in> set (fst res)"
      with Cons.IH [OF fresh(4)] have
        "d \<in> set (els @ [?d])
         \<or> (ed_name d \<notin> set (map ed_name (els @ [?d]))
             \<and> (\<exists>el. map_of (scraped e doc rest ?k) (ed_name d) = Some el
                     \<and> defined_from doc el d))"
        by blast
      then consider "d \<in> set els" | "d = ?d"
        | "ed_name d \<notin> set (map ed_name els)" and "ed_name d \<noteq> ?n"
          and "\<exists>el. map_of (scraped e doc rest ?k) (ed_name d) = Some el \<and> defined_from doc el d"
        by auto
      then show
        "d \<in> set els
         \<or> (ed_name d \<notin> set (map ed_name els)
             \<and> (\<exists>el'. map_of (scraped e doc (el # rest) k) (ed_name d) = Some el'
                      \<and> defined_from doc el' d))"
      proof cases
        case 1
        then show ?thesis by simp
      next
        case 2
        with new d0 fresh(1) show ?thesis
          by (simp add: scraped_Cons del: scraped.simps)
      next
        case 3
        with fresh(1) show ?thesis
          by (simp add: scraped_Cons del: scraped.simps)
      qed
    qed
  qed
qed


text \<open>
  C9. The names of the elements of a page are pairwise different. They are the names
  generated for the scraped elements in scan order with only the first occurrence of each
  kept, and the element kept under a name carries the locator and the description of the
  first scraped element of that name.
\<close>

theorem element_names_distinct:
  assumes "analyzeDomAndGenerateSchema e html url = Inr r"
  shows "\<exists>p. pages r = [p]
    \<and> distinct (map ed_name (elements p))
    \<and> map ed_name (elements p)
        = first_occurrences
            (map fst (scraped e (parseFromString e html)
                        (interactive_nodes (parseFromString e html)) 0))
    \<and> (\<forall>d\<in>set (elements p).
          \<exists>el. map_of (scraped e (parseFromString e html)
                         (interactive_nodes (parseFromString e html)) 0) (ed_name d) = Some el
               \<and> defined_from (parseFromString e html) el d)"
proof -
  from assms obtain els k u p where
    s: "scrape e (parseFromString e html) (interactive_nodes (parseFromString e html)) [] 0 0
          = Inr (els, k, u)"
    and p: "pages r = [p]" and els: "elements p = els"
    by (rule analysis_result) simp
  have names: "map ed_name els
        = first_occurrences
            (map fst (scraped e (parseFromString e html)
                        (interactive_nodes (parseFromString e html)) 0))"
    using scrape_names [OF s] by simp
  then have "distinct (map ed_name els)"
    by (simp add: first_occurrences_distinct)
  moreover have "\<forall>d\<in>set els.
          \<exists>el. map_of (scraped e (parseFromString e html)
                         (interactive_nodes (parseFromString e html)) 0) (ed_name d) = Some el
               \<and> defined_from (parseFromString e html) el d"
    using scrape_origin [OF s] by simp
  ultimately show ?thesis
    using p els names by blast
qed

lemma login_scraped:
  "map fst (scraped e login_doc (interactive_nodes login_doc) 0)
     = [''username_input'', ''password_input'', ''submit_button'', ''submit_button'']"
  by (simp add: login_nodes login_hidden login_names login_tags Let_def)

theorem element_names_distinct_witness:
  "\<exists>r p. analyzeDomAndGenerateSchema browser login_html
            ''https://shop.example.com/products/42'' = Inr r
     \<and> pages r = [p]
     \<and> map fst (scraped browser (parseFromString browser login_html)
                   (interactive_nodes (parseFromString browser login_html)) 0)
         = [''username_input'', ''password_input'', ''submit_button'', ''submit_button'']
     \<and> map ed_name (elements p) = [''username_input'', ''password_input'', ''submit_button'']
     \<and> distinct (map ed_name (elements p))"
proof -
  have p: "parseFromString browser login_html = login_doc"
    by (simp add: browser_def)
  show ?thesis
    using element_names_distinct [OF login_analysis]
    by (simp add: login_analysis p login_scraped)
qed


subsection \<open>Interactive tags and hidden inputs\<close>









section \<open>Determinism\<close>

lemma generateVarName_same:
  "rand1 = rand2 \<or> sanitize base \<noteq> [] \<Longrightarrow>
   generateVarName rand1 k base tag = generateVarName rand2 k base tag"
  by (auto simp: generateVarName_def Let_def)

lemma names_without_ids:
  "map element_without_id els1 = map element_without_id els2 \<Longrightarrow>
   map ed_name els1 = map ed_name els2"
proof -
  assume a: "map element_without_id els1 = map element_without_id els2"
  have "map ed_name els = map ed_name (map element_without_id els)" for els
    by (simp add: element_without_id_def)
  with a show ?thesis by metis
qed

lemma element_without_id_record:
  "element_without_id
     \<lparr>ed_id = i, ed_name = n, locatorType = t, locatorValue = v, description = d\<rparr>
   = \<lparr>ed_id = [], ed_name = n, locatorType = t, locatorValue = v, description = d\<rparr>"
  by (simp add: element_without_id_def)

lemma scrape_same:
  assumes "random e1 = random e2 \<or> (\<forall>el\<in>set nodes. \<not> hidden_input el \<longrightarrow> clean_base el)"
    and "map element_without_id els1 = map element_without_id els2"
  shows "map_sum id (\<lambda>(els, k, u). (map element_without_id els, k, u))
           (scrape e1 doc nodes els1 k u)
         = map_sum id (\<lambda>(els, k, u). (map element_without_id els, k, u))
             (scrape e2 doc nodes els2 k u)"
  using assms
proof (induction nodes arbitrary: els1 els2 k u)
  case Nil
  then show ?case by simp
next
  case (Cons el rest)
  from Cons.prems(1)
  have rest: "random e1 = random e2 \<or> (\<forall>el\<in>set rest. \<not> hidden_input el \<longrightarrow> clean_base el)"
    by auto
  show ?case
  proof (cases "hidden_input el")
    case True
    then show ?thesis
      using Cons.IH [OF rest Cons.prems(2)] by (simp add: hidden_input_def)
  next
    case False
    then have h: "\<not> (tagName el = ''INPUT'' \<and> input_type el = ''hidden'')"
      by (simp add: hidden_input_def)
    from False Cons.prems(1)
    have "random e1 = random e2 \<or> sanitize (cleanText (nameBase el)) \<noteq> []"
      by (auto simp: clean_base_def)
    then have named:
      "generateVarName (random e1) k (cleanText (nameBase el)) (toLowerCase (tagName el))
         = generateVarName (random e2) k (cleanText (nameBase el)) (toLowerCase (tagName el))"
      by (rule generateVarName_same)
    define n where
      "n = generateVarName (random e2) k (cleanText (nameBase el)) (toLowerCase (tagName el))"
    have known: "list_ex (\<lambda>d. ed_name d = fst n) els1 = list_ex (\<lambda>d. ed_name d = fst n) els2"
      unfolding list_ex_name names_without_ids [OF Cons.prems(2)] by (rule refl)
    show ?thesis
    proof (cases "generateLocator el doc")
      case (Inl err)
      then show ?thesis
        unfolding scrape.simps if_not_P [OF h] by simp
    next
      case (Inr loc)
      show ?thesis
      proof (cases "list_ex (\<lambda>d. ed_name d = fst n) els2")
        case True
        with known Inr show ?thesis
          unfolding scrape.simps if_not_P [OF h] named n_def [symmetric]
          using Cons.IH [OF rest Cons.prems(2)] by (simp add: Let_def)
      next
        case new: False
        have "map element_without_id
                (els1 @ [\<lparr>ed_id = randomUUID e1 u, ed_name = fst n,
                          locatorType = loc_type loc, locatorValue = loc_value loc,
                          description = ''Auto-generated for <'' @ toLowerCase (tagName el)
                                          @ ''>''\<rparr>])
              = map element_without_id
                  (els2 @ [\<lparr>ed_id = randomUUID e2 u, ed_name = fst n,
                            locatorType = loc_type loc, locatorValue = loc_value loc,
                            description = ''Auto-generated for <'' @ toLowerCase (tagName el)
                                            @ ''>''\<rparr>])"
          using Cons.prems(2) by (simp add: element_without_id_record)
        from Cons.IH [OF rest this] new known Inr show ?thesis
          unfolding scrape.simps if_not_P [OF h] named n_def [symmetric]
          by (simp add: Let_def)
      qed
    qed
  qed
qed

lemma name_includes_without_id:
  "name_includes keys (element_without_id d) = name_includes keys d"
  by (simp add: name_includes_def element_without_id_def)

lemma filter_without_id:
  "filter (name_includes keys) (map element_without_id els)
     = map element_without_id (filter (name_includes keys) els)"
  by (induction els) (simp_all add: name_includes_without_id)

lemma hd_name_without_id:
  "xs \<noteq> [] \<Longrightarrow> ed_name (hd (map element_without_id xs)) = ed_name (hd xs)"
  by (cases xs) (simp_all add: element_without_id_def)

lemma genericSteps_content:
  "map step_without_id (genericSteps uuid u els)
     = map (\<lambda>d. \<lparr>step_id = [],
                  action = (if includes_str (ed_name d) ''input'' then ''input'' else ''click''),
                  step_value = (if includes_str (ed_name d) ''input'' then Some ''test_data''
                                else None),
                  step_description = ''Interact with '' @ ed_name d\<rparr>) els"
  by (induction els arbitrary: u) (simp_all add: step_without_id_def)

lemma loginFlow_without_ids:
  "map test_without_ids (fst (loginFlow uuid u sp els))
     = map test_without_ids (fst (loginFlow uuid' u' sp (map element_without_id els)))"
  by (simp add: loginFlow_def Let_def filter_without_id hd_name_without_id
      test_without_ids_def step_without_id_def)

lemma searchFlow_without_ids:
  "map test_without_ids (fst (searchFlow uuid u sp els))
     = map test_without_ids (fst (searchFlow uuid' u' sp (map element_without_id els)))"
  by (simp add: searchFlow_def Let_def filter_without_id hd_name_without_id
      test_without_ids_def step_without_id_def)

lemma genericFlow_without_ids:
  "length gen = length gen' \<Longrightarrow>
   map test_without_ids (fst (genericFlow uuid u sp els gen))
     = map test_without_ids (fst (genericFlow uuid' u' sp (map element_without_id els) gen'))"
  by (simp add: genericFlow_def test_without_ids_def genericSteps_content take_map
      element_without_id_def o_def)

lemma generateTests_without_ids:
  "map test_without_ids (fst (generateTests uuid u sp els))
     = map test_without_ids (fst (generateTests uuid' u' sp (map element_without_id els)))"
proof -
  let ?els = "map element_without_id els"
  let ?l = "loginFlow uuid u sp els" and ?l' = "loginFlow uuid' u' sp ?els"
  let ?s = "searchFlow uuid (snd ?l) sp els" and ?s' = "searchFlow uuid' (snd ?l') sp ?els"
  have l: "map test_without_ids (fst ?l) = map test_without_ids (fst ?l')"
    by (rule loginFlow_without_ids)
  have s: "map test_without_ids (fst ?s) = map test_without_ids (fst ?s')"
    by (rule searchFlow_without_ids)
  from l have "length (fst ?l) = length (fst ?l')"
    by (rule map_eq_imp_length_eq)
  moreover from s have "length (fst ?s) = length (fst ?s')"
    by (rule map_eq_imp_length_eq)
  ultimately have "length (fst ?l @ fst ?s) = length (fst ?l' @ fst ?s')"
    by simp
  then have g: "map test_without_ids
                  (fst (genericFlow uuid (snd ?s) sp els (fst ?l @ fst ?s)))
                = map test_without_ids
                    (fst (genericFlow uuid' (snd ?s') sp ?els (fst ?l' @ fst ?s')))"
    by (rule genericFlow_without_ids)
  show ?thesis
    unfolding generateTests_def Let_def fst_conv snd_conv map_append l s g by (rule refl)
qed


lemma random_name:
  "sanitize base = [] \<Longrightarrow>
   generateVarName rand k base tag
     = (''element_'' @ string_of_nat (rand k mod 1000) @ ''_'' @ tag, Suc k)"
  by (simp add: generateVarName_def)

text \<open>
  C3, as the code has it. Two runs on the same document and the same address give the same
  result but for the generated identifiers, provided that they draw the same random
  numbers or that no scraped element has a name base that cleans to the empty string:
  for such an element \<open>generateVarName\<close> puts a random number into the name.
\<close>

theorem analysis_deterministic_up_to_ids:
  assumes p: "parseFromString e1 html = parseFromString e2 html"
    and u: "URL_pathname e1 url = URL_pathname e2 url"
    and r: "random e1 = random e2
            \<or> (\<forall>el\<in>set (interactive_nodes (parseFromString e1 html)).
                  \<not> hidden_input el \<longrightarrow> clean_base el)"
  shows "result_without_ids (analyzeDomAndGenerateSchema e1 html url)
         = result_without_ids (analyzeDomAndGenerateSchema e2 html url)"
proof -
  let ?doc = "parseFromString e2 html"
  let ?F = "\<lambda>(els, k :: nat, u :: nat). (map element_without_id els, k, u)"
  from r have r': "random e1 = random e2
            \<or> (\<forall>el\<in>set (interactive_nodes ?doc). \<not> hidden_input el \<longrightarrow> clean_base el)"
    by (simp add: p)
  have s: "map_sum id ?F (scrape e1 ?doc (interactive_nodes ?doc) [] 0 0)
           = map_sum id ?F (scrape e2 ?doc (interactive_nodes ?doc) [] 0 0)"
    by (rule scrape_same [OF r' refl])
  show ?thesis
  proof (cases "scrape e1 ?doc (interactive_nodes ?doc) [] 0 0")
    case (Inl err)
    with s have "scrape e2 ?doc (interactive_nodes ?doc) [] 0 0 = Inl err"
      by (cases "scrape e2 ?doc (interactive_nodes ?doc) [] 0 0") simp_all
    with Inl show ?thesis
      by (simp add: analyzeDomAndGenerateSchema_def p)
  next
    case (Inr res1)
    with s obtain res2 where res2: "scrape e2 ?doc (interactive_nodes ?doc) [] 0 0 = Inr res2"
      and eq: "?F res1 = ?F res2"
      by (cases "scrape e2 ?doc (interactive_nodes ?doc) [] 0 0") simp_all
    obtain els1 k1 u1 where r1: "res1 = (els1, k1, u1)"
      by (cases res1)
    obtain els2 k2 u2 where r2: "res2 = (els2, k2, u2)"
      by (cases res2)
    from eq have els: "map element_without_id els1 = map element_without_id els2"
      by (simp add: r1 r2)
    have t: "map test_without_ids (fst (generateTests (randomUUID e1) u1 sp els1))
             = map test_without_ids (fst (generateTests (randomUUID e2) u2 sp els2))" for sp
      using generateTests_without_ids [of "randomUUID e1" u1 sp els1 "randomUUID e2" u2]
        generateTests_without_ids [of "randomUUID e2" u2 sp els2 "randomUUID e2" u2]
      by (simp add: els)
    show ?thesis
      using Inr res2 els t
      by (simp add: analyzeDomAndGenerateSchema_def p u r1 r2 Let_def without_ids_def
          page_without_ids_def)
  qed
qed

lemma login_clean:
  "clean_base username_input" "clean_base password_input"
  "clean_base first_button" "clean_base second_button"
  by (simp_all add: clean_base_def name_eval char_eval username_input_def password_input_def
      first_button_def second_button_def)

theorem analysis_deterministic_up_to_ids_witness:
  "random browser \<noteq> random other_browser
   \<and> list_all (\<lambda>el. hidden_input el \<or> clean_base el)
         (interactive_nodes (parseFromString browser login_html))
   \<and> result_without_ids
        (analyzeDomAndGenerateSchema browser login_html ''https://shop.example.com/products/42'')
       = result_without_ids
           (analyzeDomAndGenerateSchema other_browser login_html
              ''https://shop.example.com/products/42'')"
proof -
  have p: "parseFromString browser login_html = parseFromString other_browser login_html"
    by (simp add: other_browser_def)
  have u: "URL_pathname browser ''https://shop.example.com/products/42''
           = URL_pathname other_browser ''https://shop.example.com/products/42''"
    by (simp add: other_browser_def)
  have d: "parseFromString browser login_html = login_doc"
    by (simp add: browser_def)
  have c: "\<forall>el\<in>set (interactive_nodes (parseFromString browser login_html)).
             \<not> hidden_input el \<longrightarrow> clean_base el"
    by (simp add: d login_nodes login_clean hidden_input_def login_hidden)
  have n: "random browser \<noteq> random other_browser"
    by (simp add: browser_def other_browser_def fun_eq_iff)
  from analysis_deterministic_up_to_ids [OF p u disjI2 [OF c]] c n show ?thesis
    by (auto simp: list_all_iff)
qed

text \<open>
  The claim as written fails on the button whose text is three dots: its name holds the
  random number, and the two browsers draw different ones.
\<close>

theorem random_names_differ:
  "result_without_ids (analyzeDomAndGenerateSchema browser dots_html ''not a url'')
   \<noteq> result_without_ids (analyzeDomAndGenerateSchema other_browser dots_html ''not a url'')"
  by (simp add: dots_analysis dots_analysis_other without_ids_def page_without_ids_def
      element_without_id_def)

end
